theory Spec2Isabelle
  imports Complex_Main "HOL-Library.Log_Nat"
begin

section \<open>Python values\<close>

subsection \<open>Strings\<close>

text \<open>
  A Python \<^verbatim>\<open>str\<close> is a sequence of Unicode code points, so a string is a list of
  code points. \<open>isspace\<close> is the set of code points that \<^verbatim>\<open>str.strip()\<close> removes
  (the characters for which \<^verbatim>\<open>str.isspace\<close> holds), and \<open>strip\<close> removes them from
  both ends. \<^verbatim>\<open>not value.strip()\<close> is true exactly when \<open>strip value = []\<close>.
\<close>

type_synonym pystr = "nat list"

definition isspace :: "nat \<Rightarrow> bool" where
  "isspace c \<longleftrightarrow>
     (9 \<le> c \<and> c \<le> 13) \<or> (28 \<le> c \<and> c \<le> 32) \<or> c = 133 \<or> c = 160 \<or> c = 5760 \<or>
     (8192 \<le> c \<and> c \<le> 8202) \<or> c = 8232 \<or> c = 8233 \<or> c = 8239 \<or> c = 8287 \<or> c = 12288"

definition strip :: "pystr \<Rightarrow> pystr" where
  "strip s = rev (dropWhile isspace (rev (dropWhile isspace s)))"

subsection \<open>Exceptions\<close>

text \<open>
  The exceptions that the modelled code raises: \<^verbatim>\<open>ValueError\<close> from the validating
  setters, \<^verbatim>\<open>OverflowError\<close> and \<^verbatim>\<open>ZeroDivisionError\<close> from arithmetic,
  \<^verbatim>\<open>OverflowError\<close> and \<^verbatim>\<open>UnicodeEncodeError\<close> from binding a parameter of an SQL
  statement, and \<^verbatim>\<open>sqlite3.OperationalError\<close> when a table has no rowid left. A method
  that may raise returns its outcome together with the state of the object after the
  call, so that what an aborted call has done to the object is part of the model.
\<close>

datatype error =
  ValueError | OverflowError | ZeroDivisionError | UnicodeEncodeError | OperationalError

subsection \<open>Rounding to binary64\<close>

text \<open>
  A Python float is an IEEE 754 binary64 number. \<open>round_f64\<close> rounds a rational to the
  nearest number of the form \<open>n * 2 ^ k\<close> with \<open>\<bar>n\<bar> \<le> 2 ^ 53\<close> and \<open>k \<ge> - 1074\<close>, ties to
  the even \<open>n\<close>: the quantum of a number with binary exponent \<open>e\<close> is \<open>2 ^ (e - 52)\<close>, and
  \<open>2 ^ - 1074\<close> in the subnormal range. A result of magnitude \<open>2 ^ 1024\<close> or more has
  overflowed.
\<close>

definition round_half_even :: "rat \<Rightarrow> int" where
  "round_half_even y =
     (let f = \<lfloor>y\<rfloor>; d = y - of_int f
      in if d < 1 / 2 then f else if 1 / 2 < d then f + 1 else if even f then f else f + 1)"

definition binexp :: "rat \<Rightarrow> int" where
  "binexp x =
     (let a = \<bar>x\<bar>
      in if 1 \<le> a then bitlen \<lfloor>a\<rfloor> - 1 else - bitlen (\<lceil>1 / a\<rceil> - 1))"

definition quantum :: "rat \<Rightarrow> rat" where
  "quantum x = 2 powi (max (binexp x - 52) (- 1074))"

definition round_f64 :: "rat \<Rightarrow> rat" where
  "round_f64 x = (if x = 0 then 0 else of_int (round_half_even (x / quantum x)) * quantum x)"

subsection \<open>Floats\<close>

text \<open>
  The finite floats are the rationals that rounding leaves alone and that have not
  overflowed. \<open>rat_of\<close> is the exact value of a finite float and \<open>f64_of\<close> the finite
  float nearest to a rational. The two zeros of binary64 are one value here: they are
  equal in Python, and no operation of the modelled code tells them apart.
\<close>

definition overflow_threshold :: rat where
  "overflow_threshold = 2 ^ 1024"

typedef f64 = "{x :: rat. round_f64 x = x \<and> \<bar>x\<bar> < overflow_threshold}"
  morphisms rat_of f64_abs
proof
  show "0 \<in> {x :: rat. round_f64 x = x \<and> \<bar>x\<bar> < overflow_threshold}"
    by (simp add: round_f64_def overflow_threshold_def)
qed

definition f64_of :: "rat \<Rightarrow> f64" where
  "f64_of x = f64_abs (if \<bar>round_f64 x\<bar> < overflow_threshold then round_f64 x else 0)"

datatype pyfloat = Finite f64 | PosInf | NegInf | NaN

text \<open>The float that an exact result rounds to: an overflow gives an infinity.\<close>

definition to_float :: "rat \<Rightarrow> pyfloat" where
  "to_float x =
     (if overflow_threshold \<le> round_f64 x then PosInf
      else if round_f64 x \<le> - overflow_threshold then NegInf
      else Finite (f64_of x))"

fun fsign :: "pyfloat \<Rightarrow> int" where
  "fsign (Finite a) = (if 0 < rat_of a then 1 else if rat_of a < 0 then - 1 else 0)"
| "fsign PosInf = 1"
| "fsign NegInf = - 1"
| "fsign NaN = 0"

fun fadd :: "pyfloat \<Rightarrow> pyfloat \<Rightarrow> pyfloat" where
  "fadd (Finite a) (Finite b) = to_float (rat_of a + rat_of b)"
| "fadd NaN y = NaN"
| "fadd x NaN = NaN"
| "fadd PosInf NegInf = NaN"
| "fadd NegInf PosInf = NaN"
| "fadd PosInf y = PosInf"
| "fadd NegInf y = NegInf"
| "fadd (Finite a) y = y"

definition fmul :: "pyfloat \<Rightarrow> pyfloat \<Rightarrow> pyfloat" where
  "fmul x y =
     (case (x, y) of
        (Finite a, Finite b) \<Rightarrow> to_float (rat_of a * rat_of b)
      | _ \<Rightarrow> if x = NaN \<or> y = NaN \<or> fsign x * fsign y = 0 then NaN
             else if 0 < fsign x * fsign y then PosInf else NegInf)"

text \<open>Python raises \<^verbatim>\<open>ZeroDivisionError\<close> for a zero divisor, whatever the dividend.\<close>

definition fdiv :: "pyfloat \<Rightarrow> pyfloat \<Rightarrow> error + pyfloat" where
  "fdiv x y =
     (case y of
        NaN \<Rightarrow> Inr NaN
      | Finite b \<Rightarrow>
          if rat_of b = 0 then Inl ZeroDivisionError
          else (case x of
                  Finite a \<Rightarrow> Inr (to_float (rat_of a / rat_of b))
                | NaN \<Rightarrow> Inr NaN
                | _ \<Rightarrow> Inr (if 0 < fsign x * fsign y then PosInf else NegInf))
      | _ \<Rightarrow> (case x of Finite a \<Rightarrow> Inr (Finite (f64_of 0)) | _ \<Rightarrow> Inr NaN))"

fun flt :: "pyfloat \<Rightarrow> pyfloat \<Rightarrow> bool" where
  "flt (Finite a) (Finite b) = (rat_of a < rat_of b)"
| "flt NaN y = False"
| "flt x NaN = False"
| "flt x NegInf = False"
| "flt PosInf y = False"
| "flt NegInf y = True"
| "flt (Finite a) PosInf = True"

subsection \<open>Numbers\<close>

text \<open>
  A Python number is an \<^verbatim>\<open>int\<close> of any size or a \<^verbatim>\<open>float\<close>. Two ints are added and
  multiplied exactly. When one operand is a float the int is converted first, to the
  nearest float, and the conversion raises \<^verbatim>\<open>OverflowError\<close> when that is no finite
  float. \<^verbatim>\<open>int / int\<close> is the correctly rounded quotient and raises \<^verbatim>\<open>OverflowError\<close>
  when it overflows. An int and a float are compared by their exact values.
\<close>

datatype pynum = PyInt int | PyFloat pyfloat

definition float_of_int :: "int \<Rightarrow> error + pyfloat" where
  "float_of_int i =
     (case to_float (of_int i) of Finite f \<Rightarrow> Inr (Finite f) | _ \<Rightarrow> Inl OverflowError)"

fun as_float :: "pynum \<Rightarrow> error + pyfloat" where
  "as_float (PyInt i) = float_of_int i"
| "as_float (PyFloat f) = Inr f"

fun num_add :: "pynum \<Rightarrow> pynum \<Rightarrow> error + pynum" where
  "num_add (PyInt a) (PyInt b) = Inr (PyInt (a + b))"
| "num_add x y =
     (case as_float x of
        Inl err \<Rightarrow> Inl err
      | Inr fx \<Rightarrow> (case as_float y of
                     Inl err \<Rightarrow> Inl err
                   | Inr fy \<Rightarrow> Inr (PyFloat (fadd fx fy))))"

fun num_mul :: "pynum \<Rightarrow> pynum \<Rightarrow> error + pynum" where
  "num_mul (PyInt a) (PyInt b) = Inr (PyInt (a * b))"
| "num_mul x y =
     (case as_float x of
        Inl err \<Rightarrow> Inl err
      | Inr fx \<Rightarrow> (case as_float y of
                     Inl err \<Rightarrow> Inl err
                   | Inr fy \<Rightarrow> Inr (PyFloat (fmul fx fy))))"

fun num_truediv :: "pynum \<Rightarrow> pynum \<Rightarrow> error + pynum" where
  "num_truediv (PyInt a) (PyInt b) =
     (if b = 0 then Inl ZeroDivisionError
      else (case to_float (of_int a / of_int b) of
              Finite f \<Rightarrow> Inr (PyFloat (Finite f))
            | _ \<Rightarrow> Inl OverflowError))"
| "num_truediv x y =
     (case as_float x of
        Inl err \<Rightarrow> Inl err
      | Inr fx \<Rightarrow> (case as_float y of
                     Inl err \<Rightarrow> Inl err
                   | Inr fy \<Rightarrow> (case fdiv fx fy of
                                  Inl err \<Rightarrow> Inl err
                                | Inr q \<Rightarrow> Inr (PyFloat q))))"

fun num_lt :: "pynum \<Rightarrow> pynum \<Rightarrow> bool" where
  "num_lt (PyInt a) (PyInt b) = (a < b)"
| "num_lt (PyFloat x) (PyFloat y) = flt x y"
| "num_lt (PyInt a) (PyFloat (Finite b)) = (of_int a < rat_of b)"
| "num_lt (PyInt a) (PyFloat PosInf) = True"
| "num_lt (PyInt a) (PyFloat y) = False"
| "num_lt (PyFloat (Finite a)) (PyInt b) = (rat_of a < of_int b)"
| "num_lt (PyFloat NegInf) (PyInt b) = True"
| "num_lt (PyFloat x) (PyInt b) = False"

fun num_eq :: "pynum \<Rightarrow> pynum \<Rightarrow> bool" where
  "num_eq (PyInt a) (PyInt b) = (a = b)"
| "num_eq (PyFloat NaN) y = False"
| "num_eq x (PyFloat NaN) = False"
| "num_eq (PyFloat x) (PyFloat y) = (x = y)"
| "num_eq (PyInt a) (PyFloat (Finite b)) = (of_int a = rat_of b)"
| "num_eq (PyInt a) (PyFloat y) = False"
| "num_eq (PyFloat (Finite a)) (PyInt b) = (rat_of a = of_int b)"
| "num_eq (PyFloat x) (PyInt b) = False"

subsection \<open>Shares of a count\<close>

text \<open>
  The percentages of the source are \<^verbatim>\<open>(k / n) * 100\<close> for counts \<open>k \<le> n\<close> with
  \<open>n > 0\<close>. The quotient of the two ints is a float from 0 to 1 and its product with 100
  a float from 0 to 100, so nothing overflows and nothing raises; such a float is given
  by its exact value.
\<close>

definition py_mul :: "rat \<Rightarrow> rat \<Rightarrow> rat" where
  "py_mul a b = round_f64 (a * b)"

definition py_truediv :: "rat \<Rightarrow> rat \<Rightarrow> rat" where
  "py_truediv a b = round_f64 (a / b)"

section \<open>models.py\<close>

subsection \<open>Employee\<close>

text \<open>
  The getters \<^verbatim>\<open>get_id\<close>, \<^verbatim>\<open>get_name\<close>, \<^verbatim>\<open>get_position\<close>, \<^verbatim>\<open>get_salary\<close> and
  \<^verbatim>\<open>get_hours_worked\<close> return the fields; they are the selectors of the record.
\<close>

record employee =
  emp_id :: "int option"
  emp_name :: pystr
  emp_position :: pystr
  emp_salary :: pynum
  emp_hours_worked :: pynum

text \<open>\<^verbatim>\<open>__init__\<close> stores its arguments as they are.\<close>

definition Employee_init :: "pystr \<Rightarrow> pystr \<Rightarrow> pynum \<Rightarrow> pynum \<Rightarrow> int option \<Rightarrow> employee" where
  "Employee_init name position salary hours_worked employee_id =
     \<lparr>emp_id = employee_id, emp_name = name, emp_position = position,
      emp_salary = salary, emp_hours_worked = hours_worked\<rparr>"

definition Employee_set_id :: "employee \<Rightarrow> int option \<Rightarrow> employee" where
  "Employee_set_id e v = e\<lparr>emp_id := v\<rparr>"

definition Employee_set_name :: "employee \<Rightarrow> pystr \<Rightarrow> (error + unit) \<times> employee" where
  "Employee_set_name e v =
     (if strip v = [] then (Inl ValueError, e) else (Inr (), e\<lparr>emp_name := v\<rparr>))"

definition Employee_set_position :: "employee \<Rightarrow> pystr \<Rightarrow> employee" where
  "Employee_set_position e v = e\<lparr>emp_position := v\<rparr>"

definition Employee_set_salary :: "employee \<Rightarrow> pynum \<Rightarrow> (error + unit) \<times> employee" where
  "Employee_set_salary e v =
     (if num_lt v (PyInt 0) then (Inl ValueError, e) else (Inr (), e\<lparr>emp_salary := v\<rparr>))"

text \<open>The sum is computed before the assignment: when it raises, the hours are kept.\<close>

definition Employee_add_hours :: "employee \<Rightarrow> pynum \<Rightarrow> (error + unit) \<times> employee" where
  "Employee_add_hours e hours =
     (if num_lt hours (PyInt 0) then (Inl ValueError, e)
      else (case num_add (emp_hours_worked e) hours of
              Inl err \<Rightarrow> (Inl err, e)
            | Inr s \<Rightarrow> (Inr (), e\<lparr>emp_hours_worked := s\<rparr>)))"

definition Employee_calculate_pay :: "employee \<Rightarrow> error + pynum" where
  "Employee_calculate_pay e =
     (case num_truediv (emp_salary e) (PyInt 176) of
        Inl err \<Rightarrow> Inl err
      | Inr hourly_rate \<Rightarrow> num_mul (emp_hours_worked e) hourly_rate)"

text \<open>
  The public mutators of an Employee, and the object after one call and after a
  sequence of calls (a call that raises leaves the object as the method left it).
\<close>

datatype employee_op =
  Set_id "int option" | Set_name pystr | Set_position pystr | Set_salary pynum | Add_hours pynum

fun Employee_call :: "employee \<Rightarrow> employee_op \<Rightarrow> employee" where
  "Employee_call e (Set_id v) = Employee_set_id e v"
| "Employee_call e (Set_name v) = snd (Employee_set_name e v)"
| "Employee_call e (Set_position v) = Employee_set_position e v"
| "Employee_call e (Set_salary v) = snd (Employee_set_salary e v)"
| "Employee_call e (Add_hours h) = snd (Employee_add_hours e h)"

definition Employee_calls :: "employee \<Rightarrow> employee_op list \<Rightarrow> employee" where
  "Employee_calls e ops = foldl Employee_call e ops"

text \<open>
  The invariant the specification states for an Employee, with the code's own test for
  a negative number.
\<close>

definition employee_inv :: "employee \<Rightarrow> bool" where
  "employee_inv e \<longleftrightarrow>
     strip (emp_name e) \<noteq> [] \<and> \<not> num_lt (emp_salary e) (PyInt 0)
     \<and> \<not> num_lt (emp_hours_worked e) (PyInt 0)"

text \<open>
  An int has an exact float when converting it changes nothing. \<open>conversions_exact\<close>
  holds for a sequence of calls when every \<^verbatim>\<open>add_hours\<close> that adds a float finds hours
  that are a float already or an int with an exact float.
\<close>

fun exact_in_float :: "pynum \<Rightarrow> bool" where
  "exact_in_float (PyInt i) = (round_f64 (of_int i) = of_int i)"
| "exact_in_float (PyFloat f) = True"

fun adds_float :: "employee_op \<Rightarrow> bool" where
  "adds_float (Add_hours (PyFloat h)) = True"
| "adds_float x = False"

fun conversions_exact :: "employee \<Rightarrow> employee_op list \<Rightarrow> bool" where
  "conversions_exact e [] = True"
| "conversions_exact e (x # xs) =
     ((if adds_float x then exact_in_float (emp_hours_worked e) else True)
      \<and> conversions_exact (Employee_call e x) xs)"

text \<open>
  A later value \<open>b\<close> keeps up with an earlier value \<open>a\<close> when it is not less; a NaN is
  less than nothing and nothing is less than it, so a NaN can only come last.
\<close>

definition keeps_up :: "pynum \<Rightarrow> pynum \<Rightarrow> bool" where
  "keeps_up a b \<longleftrightarrow> b = PyFloat NaN \<or> (a \<noteq> PyFloat NaN \<and> \<not> num_lt b a)"

subsection \<open>Task\<close>

text \<open>
  The two status literals of the source, as code points: \<open>V_processe\<close> is the default
  status (in progress) and \<open>Zaversheno\<close> is the literal that \<^verbatim>\<open>mark_complete\<close> stores
  and \<^verbatim>\<open>is_completed\<close> compares with (completed).
\<close>

definition V_processe :: pystr where
  "V_processe = [1042, 32, 1087, 1088, 1086, 1094, 1077, 1089, 1089, 1077]"

definition Zaversheno :: pystr where
  "Zaversheno = [1047, 1072, 1074, 1077, 1088, 1096, 1077, 1085, 1086]"

definition STATUSES :: "pystr list" where
  "STATUSES = [V_processe, Zaversheno]"

text \<open>
  A task refers to its Employee object; the record holds the state of that object at
  the moment the task is looked at.
\<close>

record task =
  task_id :: "int option"
  task_title :: pystr
  task_description :: pystr
  task_status :: pystr
  task_assigned_employee :: "employee option"
  task_project_id :: "int option"

definition Task_init ::
  "pystr \<Rightarrow> pystr \<Rightarrow> pystr \<Rightarrow> employee option \<Rightarrow> int option \<Rightarrow> int option \<Rightarrow> task" where
  "Task_init title description status assigned_employee tid project_id =
     \<lparr>task_id = tid, task_title = title, task_description = description,
      task_status = status, task_assigned_employee = assigned_employee,
      task_project_id = project_id\<rparr>"

definition Task_set_id :: "task \<Rightarrow> int option \<Rightarrow> task" where
  "Task_set_id t v = t\<lparr>task_id := v\<rparr>"

definition Task_set_title :: "task \<Rightarrow> pystr \<Rightarrow> (error + unit) \<times> task" where
  "Task_set_title t v =
     (if strip v = [] then (Inl ValueError, t) else (Inr (), t\<lparr>task_title := v\<rparr>))"

definition Task_set_description :: "task \<Rightarrow> pystr \<Rightarrow> task" where
  "Task_set_description t v = t\<lparr>task_description := v\<rparr>"

definition Task_set_project_id :: "task \<Rightarrow> int option \<Rightarrow> task" where
  "Task_set_project_id t v = t\<lparr>task_project_id := v\<rparr>"

definition Task_assign_employee :: "task \<Rightarrow> employee option \<Rightarrow> task" where
  "Task_assign_employee t e = t\<lparr>task_assigned_employee := e\<rparr>"

definition Task_mark_complete :: "task \<Rightarrow> task" where
  "Task_mark_complete t = t\<lparr>task_status := Zaversheno\<rparr>"

definition Task_is_completed :: "task \<Rightarrow> bool" where
  "Task_is_completed t \<longleftrightarrow> task_status t = Zaversheno"

datatype task_op =
  T_set_id "int option" | T_set_title pystr | T_set_description pystr |
  T_set_project_id "int option" | T_assign_employee "employee option" | T_mark_complete

fun Task_call :: "task \<Rightarrow> task_op \<Rightarrow> task" where
  "Task_call t (T_set_id v) = Task_set_id t v"
| "Task_call t (T_set_title v) = snd (Task_set_title t v)"
| "Task_call t (T_set_description v) = Task_set_description t v"
| "Task_call t (T_set_project_id v) = Task_set_project_id t v"
| "Task_call t (T_assign_employee e) = Task_assign_employee t e"
| "Task_call t T_mark_complete = Task_mark_complete t"

definition Task_calls :: "task \<Rightarrow> task_op list \<Rightarrow> task" where
  "Task_calls t ops = foldl Task_call t ops"

subsection \<open>Project: the calculations\<close>

text \<open>
  \<^verbatim>\<open>project_progress\<close> and \<^verbatim>\<open>get_completed_tasks_count\<close> read the task list of the
  project and the tasks in it; they are functions of the tasks that \<^verbatim>\<open>self._tasks\<close>
  holds, in order. The loops keep their counter.
\<close>

fun progress_loop :: "task list \<Rightarrow> nat \<Rightarrow> nat" where
  "progress_loop [] completed = completed"
| "progress_loop (t # ts) completed =
     progress_loop ts (if task_status t = Zaversheno then completed + 1 else completed)"

definition project_progress :: "task list \<Rightarrow> rat" where
  "project_progress tasks =
     (if length tasks = 0 then 0
      else py_mul (py_truediv (of_nat (progress_loop tasks 0)) (of_nat (length tasks))) 100)"

fun count_loop :: "task list \<Rightarrow> nat \<Rightarrow> nat" where
  "count_loop [] n = n"
| "count_loop (t # ts) n = count_loop ts (if Task_is_completed t then n + 1 else n)"

definition get_completed_tasks_count :: "task list \<Rightarrow> nat" where
  "get_completed_tasks_count tasks = count_loop tasks 0"

text \<open>A project as its readers see it: identifier, title and the tasks in its list.\<close>

record project =
  proj_id :: "int option"
  proj_title :: pystr
  proj_tasks :: "task list"

section \<open>analytics.py\<close>

text \<open>
  \<^verbatim>\<open>get_task_statistics\<close> scans the tasks of every project with five counters. A rate
  is a float when the total is positive and the integer 0 otherwise. An Employee object
  is always true in a condition, so \<^verbatim>\<open>if task.get_assigned_employee()\<close> tests that the
  reference is not \<^verbatim>\<open>None\<close>.
\<close>

record counters =
  total_tasks :: nat
  completed_tasks :: nat
  in_progress_tasks :: nat
  assigned_tasks :: nat
  unassigned_tasks :: nat

definition count_task :: "counters \<Rightarrow> task \<Rightarrow> counters" where
  "count_task c t =
     (let c1 = c\<lparr>total_tasks := total_tasks c + 1\<rparr>;
          c2 = (if Task_is_completed t then c1\<lparr>completed_tasks := completed_tasks c1 + 1\<rparr>
                else c1\<lparr>in_progress_tasks := in_progress_tasks c1 + 1\<rparr>)
      in if task_assigned_employee t \<noteq> None then c2\<lparr>assigned_tasks := assigned_tasks c2 + 1\<rparr>
         else c2\<lparr>unassigned_tasks := unassigned_tasks c2 + 1\<rparr>)"

fun tasks_loop :: "counters \<Rightarrow> task list \<Rightarrow> counters" where
  "tasks_loop c [] = c"
| "tasks_loop c (t # ts) = tasks_loop (count_task c t) ts"

fun projects_loop :: "counters \<Rightarrow> project list \<Rightarrow> counters" where
  "projects_loop c [] = c"
| "projects_loop c (p # ps) = projects_loop (tasks_loop c (proj_tasks p)) ps"

record task_statistics =
  total :: nat
  completed :: nat
  in_progress :: nat
  assigned :: nat
  unassigned :: nat
  completion_rate :: rat
  assignment_rate :: rat

definition get_task_statistics :: "project list \<Rightarrow> task_statistics" where
  "get_task_statistics projects =
     (let c = projects_loop
                \<lparr>total_tasks = 0, completed_tasks = 0, in_progress_tasks = 0,
                 assigned_tasks = 0, unassigned_tasks = 0\<rparr> projects
      in \<lparr>total = total_tasks c,
          completed = completed_tasks c,
          in_progress = in_progress_tasks c,
          assigned = assigned_tasks c,
          unassigned = unassigned_tasks c,
          completion_rate =
            (if total_tasks c > 0
             then py_mul (py_truediv (of_nat (completed_tasks c)) (of_nat (total_tasks c))) 100
             else 0),
          assignment_rate =
            (if total_tasks c > 0
             then py_mul (py_truediv (of_nat (assigned_tasks c)) (of_nat (total_tasks c))) 100
             else 0)\<rparr>)"

section \<open>storage.py\<close>

subsection \<open>The three tables\<close>

text \<open>
  A table is the list of its rows in rowid order. Each table has an
  \<^verbatim>\<open>INTEGER PRIMARY KEY AUTOINCREMENT\<close> column: the rowid of an inserted row is one more
  than the largest rowid the table has ever held, which SQLite keeps in
  \<^verbatim>\<open>sqlite_sequence\<close> (the \<open>seq\<close> fields), and the insert fails with
  \<^verbatim>\<open>sqlite3.OperationalError\<close> when that rowid was the largest 64-bit integer. Foreign
  keys are declared and not enforced (the source never switches them on). Every method
  commits before it returns, and there is one connection, so a state of the database is
  the content of the tables. A \<^verbatim>\<open>REAL\<close> column holds a float or NULL.
\<close>

record employee_row =
  er_id :: int
  er_name :: pystr
  er_position :: pystr
  er_salary :: "pyfloat option"
  er_hours_worked :: "pyfloat option"

record project_row =
  pr_id :: int
  pr_title :: pystr

record task_row =
  tr_id :: int
  tr_title :: pystr
  tr_description :: pystr
  tr_status :: pystr
  tr_employee_id :: "int option"
  tr_project_id :: "int option"

record database =
  employees :: "employee_row list"
  projects :: "project_row list"
  tasks :: "task_row list"
  seq_employees :: int
  seq_projects :: int
  seq_tasks :: int



subsection \<open>Binding parameters\<close>









subsection \<open>Employees\<close>



subsection \<open>Projects\<close>



subsection \<open>Tasks\<close>



subsection \<open>Deleting\<close>

text \<open>
  The delete methods execute two statements one after the other on the same cursor.
  The statements are kept as data, so that the states between them can be named.
\<close>

datatype statement =
  UPDATE_tasks_SET_employee_id_NULL int
| DELETE_FROM_employees int
| DELETE_FROM_tasks_WHERE_project_id int
| DELETE_FROM_projects int
| DELETE_FROM_tasks int

fun execute :: "database \<Rightarrow> statement \<Rightarrow> database" where
  "execute db (UPDATE_tasks_SET_employee_id_NULL i) =
     db\<lparr>tasks := map (\<lambda>r. if tr_employee_id r = Some i then r\<lparr>tr_employee_id := None\<rparr> else r)
                     (tasks db)\<rparr>"
| "execute db (DELETE_FROM_employees i) =
     db\<lparr>employees := filter (\<lambda>r. er_id r \<noteq> i) (employees db)\<rparr>"
| "execute db (DELETE_FROM_tasks_WHERE_project_id i) =
     db\<lparr>tasks := filter (\<lambda>r. tr_project_id r \<noteq> Some i) (tasks db)\<rparr>"
| "execute db (DELETE_FROM_projects i) =
     db\<lparr>projects := filter (\<lambda>r. pr_id r \<noteq> i) (projects db)\<rparr>"
| "execute db (DELETE_FROM_tasks i) =
     db\<lparr>tasks := filter (\<lambda>r. tr_id r \<noteq> i) (tasks db)\<rparr>"

text \<open>The states of the database after each statement of a method, in order.\<close>

fun states :: "database \<Rightarrow> statement list \<Rightarrow> database list" where
  "states db [] = []"
| "states db (s # ss) = execute db s # states (execute db s) ss"

definition delete_employee_statements :: "int \<Rightarrow> statement list" where
  "delete_employee_statements employee_id =
     [UPDATE_tasks_SET_employee_id_NULL employee_id, DELETE_FROM_employees employee_id]"

definition delete_employee :: "database \<Rightarrow> int \<Rightarrow> database" where
  "delete_employee db employee_id = foldl execute db (delete_employee_statements employee_id)"

definition delete_project_statements :: "int \<Rightarrow> statement list" where
  "delete_project_statements project_id =
     [DELETE_FROM_tasks_WHERE_project_id project_id, DELETE_FROM_projects project_id]"

definition delete_project :: "database \<Rightarrow> int \<Rightarrow> database" where
  "delete_project db project_id = foldl execute db (delete_project_statements project_id)"

definition delete_task :: "database \<Rightarrow> int \<Rightarrow> database" where
  "delete_task db tid = execute db (DELETE_FROM_tasks tid)"

section \<open>Project objects and their task lists\<close>

text \<open>
  A Project object holds a reference to a Python list, and the list holds references to
  Task objects. Whether two names denote the same list decides what a mutation changes,
  so list objects live in a store: the address of a list is its index in \<open>h_lists\<close>, and
  a new list is allocated at the end. Task objects are compared by identity
  (the class defines no \<^verbatim>\<open>__eq__\<close>), so a list holds task addresses, and \<open>h_tasks\<close> gives
  the Task object at an address.
\<close>

record heap =
  h_lists :: "nat list list"
  h_tasks :: "nat \<Rightarrow> task"

record project_obj =
  po_id :: "int option"
  po_title :: pystr
  po_tasks :: nat

definition Project_init :: "heap \<Rightarrow> pystr \<Rightarrow> int option \<Rightarrow> heap \<times> project_obj" where
  "Project_init h title pid =
     (h\<lparr>h_lists := h_lists h @ [[]]\<rparr>,
      \<lparr>po_id = pid, po_title = title, po_tasks = length (h_lists h)\<rparr>)"

text \<open>\<^verbatim>\<open>list(self._tasks)\<close> allocates a new list with the same elements.\<close>

definition Project_get_tasks :: "heap \<Rightarrow> project_obj \<Rightarrow> heap \<times> nat" where
  "Project_get_tasks h p =
     (h\<lparr>h_lists := h_lists h @ [h_lists h ! po_tasks p]\<rparr>, length (h_lists h))"

definition Project_set_id :: "project_obj \<Rightarrow> int option \<Rightarrow> project_obj" where
  "Project_set_id p v = p\<lparr>po_id := v\<rparr>"

definition Project_set_title :: "project_obj \<Rightarrow> pystr \<Rightarrow> (error + unit) \<times> project_obj" where
  "Project_set_title p v =
     (if strip v = [] then (Inl ValueError, p) else (Inr (), p\<lparr>po_title := v\<rparr>))"

text \<open>\<^verbatim>\<open>self._tasks = tasks\<close> stores the reference it is given.\<close>

definition Project_set_tasks :: "project_obj \<Rightarrow> nat \<Rightarrow> project_obj" where
  "Project_set_tasks p tasks_ref = p\<lparr>po_tasks := tasks_ref\<rparr>"

definition list_append :: "heap \<Rightarrow> nat \<Rightarrow> nat \<Rightarrow> heap" where
  "list_append h l x = h\<lparr>h_lists := (h_lists h)[l := h_lists h ! l @ [x]]\<rparr>"

text \<open>\<^verbatim>\<open>list.remove\<close> removes the first occurrence and raises when there is none.\<close>

definition list_remove :: "heap \<Rightarrow> nat \<Rightarrow> nat \<Rightarrow> (error + unit) \<times> heap" where
  "list_remove h l x =
     (if x \<in> set (h_lists h ! l)
      then (Inr (), h\<lparr>h_lists := (h_lists h)[l := remove1 x (h_lists h ! l)]\<rparr>)
      else (Inl ValueError, h))"

definition Project_add_task :: "heap \<Rightarrow> project_obj \<Rightarrow> nat \<Rightarrow> heap" where
  "Project_add_task h p t = list_append h (po_tasks p) t"

definition Project_remove_task :: "heap \<Rightarrow> project_obj \<Rightarrow> nat \<Rightarrow> heap" where
  "Project_remove_task h p t =
     (if t \<in> set (h_lists h ! po_tasks p) then snd (list_remove h (po_tasks p) t) else h)"

text \<open>The tasks a project holds, and the two calculations on the object.\<close>

definition tasks_of :: "heap \<Rightarrow> project_obj \<Rightarrow> task list" where
  "tasks_of h p = map (h_tasks h) (h_lists h ! po_tasks p)"

definition Project_project_progress :: "heap \<Rightarrow> project_obj \<Rightarrow> rat" where
  "Project_project_progress h p = project_progress (tasks_of h p)"

definition Project_get_completed_tasks_count :: "heap \<Rightarrow> project_obj \<Rightarrow> nat" where
  "Project_get_completed_tasks_count h p = get_completed_tasks_count (tasks_of h p)"

section \<open>Sample data\<close>

text \<open>A small database and a small object store, used to run the operations.\<close>

definition sample_database :: database where
  "sample_database =
     \<lparr>employees =
        [\<lparr>er_id = 1, er_name = [65], er_position = [100],
          er_salary = Some (Finite (f64_of 100000)), er_hours_worked = Some (Finite (f64_of 0))\<rparr>,
         \<lparr>er_id = 2, er_name = [66], er_position = [],
          er_salary = Some (Finite (f64_of 50000)), er_hours_worked = Some (Finite (f64_of 8))\<rparr>],
      projects = [\<lparr>pr_id = 1, pr_title = [80]\<rparr>, \<lparr>pr_id = 2, pr_title = [81]\<rparr>],
      tasks =
        [\<lparr>tr_id = 1, tr_title = [84], tr_description = [], tr_status = V_processe,
          tr_employee_id = Some 1, tr_project_id = Some 1\<rparr>,
         \<lparr>tr_id = 2, tr_title = [85], tr_description = [], tr_status = Zaversheno,
          tr_employee_id = Some 2, tr_project_id = Some 1\<rparr>,
         \<lparr>tr_id = 3, tr_title = [86], tr_description = [], tr_status = V_processe,
          tr_employee_id = None, tr_project_id = Some 2\<rparr>],
      seq_employees = 2, seq_projects = 2, seq_tasks = 3\<rparr>"

definition sample_task :: "nat \<Rightarrow> task" where
  "sample_task n =
     (if n = 0 then Task_mark_complete (Task_init [65] [] V_processe None (Some 1) (Some 1))
      else Task_init [66] [] V_processe None (Some (int n + 1)) (Some 1))"

definition sample_heap :: heap where
  "sample_heap = \<lparr>h_lists = [[0, 1]], h_tasks = sample_task\<rparr>"

definition sample_project_obj :: project_obj where
  "sample_project_obj = \<lparr>po_id = Some 1, po_title = [80], po_tasks = 0\<rparr>"

section \<open>Rounding to binary64: properties\<close>

lemma round_half_even_of_int: "round_half_even (of_int n) = n"
  by (simp add: round_half_even_def)

lemma round_half_even_bounds: "\<lfloor>y\<rfloor> \<le> round_half_even y \<and> round_half_even y \<le> \<lfloor>y\<rfloor> + 1"
  by (simp add: round_half_even_def Let_def)

lemma round_half_even_mono:
  assumes "x \<le> y"
  shows "round_half_even x \<le> round_half_even y"
proof (cases "\<lfloor>x\<rfloor> = \<lfloor>y\<rfloor>")
  case True
  with assms have "x - of_int \<lfloor>x\<rfloor> \<le> y - of_int \<lfloor>y\<rfloor>" by simp
  with True show ?thesis
    by (auto simp add: round_half_even_def Let_def)
next
  case False
  from assms have "\<lfloor>x\<rfloor> \<le> \<lfloor>y\<rfloor>" by (rule floor_mono)
  with False have "\<lfloor>x\<rfloor> + 1 \<le> \<lfloor>y\<rfloor>" by simp
  with round_half_even_bounds [of x] round_half_even_bounds [of y] show ?thesis
    by linarith
qed

lemma binexp_bounds_pos:
  assumes "0 < x"
  shows "2 powi binexp x \<le> x \<and> x < 2 powi (binexp x + 1)"
proof (cases "1 \<le> x")
  case True
  define m where "m = \<lfloor>x\<rfloor>"
  from True have mpos: "0 < m" by (simp add: m_def)
  then have b1: "1 \<le> bitlen m" by (simp add: bitlen_alt_def)
  from True assms have e: "binexp x = bitlen m - 1"
    by (simp add: binexp_def m_def)
  from bitlen_bounds [OF mpos] have lo: "2 ^ nat (bitlen m - 1) \<le> m" and hi: "m < 2 ^ nat (bitlen m)"
    by simp_all
  have "(of_int (2 ^ nat (bitlen m - 1)) :: rat) \<le> of_int m"
    using lo by (simp only: of_int_le_iff)
  also have "\<dots> \<le> x" by (simp add: m_def)
  finally have "(2::rat) ^ nat (bitlen m - 1) \<le> x" by simp
  then have L: "2 powi (bitlen m - 1) \<le> x"
    using b1 by (simp add: power_int_def)
  from hi have "m + 1 \<le> 2 ^ nat (bitlen m)" by simp
  then have "(of_int (m + 1) :: rat) \<le> of_int (2 ^ nat (bitlen m))"
    by (simp only: of_int_le_iff)
  then have "(of_int (m + 1) :: rat) \<le> 2 ^ nat (bitlen m)" by simp
  moreover have "x < of_int (m + 1)" unfolding m_def using floor_correct [of x] by simp
  ultimately have "x < 2 ^ nat (bitlen m)" by (rule less_le_trans [rotated])
  then have U: "x < 2 powi (bitlen m - 1 + 1)"
    using b1 by (simp add: power_int_def)
  from L U e show ?thesis by simp
next
  case False
  define s where "s = 1 / x"
  define m where "m = \<lceil>s\<rceil>"
  define k where "k = bitlen (m - 1)"
  from False assms have s1: "1 < s" by (simp add: s_def)
  then have m2: "2 \<le> m" unfolding m_def by (simp add: le_ceiling_iff)
  then have mpos: "0 < m - 1" by simp
  then have k1: "1 \<le> k" by (simp add: k_def bitlen_alt_def)
  from False assms have e: "binexp x = - k"
    by (simp add: binexp_def k_def m_def s_def)
  from bitlen_bounds [OF mpos] have lo: "2 ^ nat (k - 1) \<le> m - 1" and hi: "m - 1 < 2 ^ nat k"
    by (simp_all add: k_def)
  from hi have "m \<le> 2 ^ nat k" by simp
  then have "(of_int m :: rat) \<le> of_int (2 ^ nat k)" by (simp only: of_int_le_iff)
  then have "(of_int m :: rat) \<le> 2 ^ nat k" by simp
  moreover have "s \<le> of_int m" by (simp add: m_def)
  ultimately have sU: "s \<le> 2 ^ nat k" by (rule order_trans [rotated])
  have "(of_int (2 ^ nat (k - 1)) :: rat) \<le> of_int (m - 1)"
    using lo by (simp only: of_int_le_iff)
  then have "(2::rat) ^ nat (k - 1) \<le> of_int (m - 1)" by simp
  moreover have "of_int (m - 1) < s" unfolding m_def using ceiling_correct [of s] by simp
  ultimately have sL: "2 ^ nat (k - 1) < s" by (rule le_less_trans)
  have xs: "x = 1 / s" using assms by (simp add: s_def)
  have spos: "0 < s" using s1 by simp
  have "1 / (2 ^ nat k) \<le> 1 / s"
    using sU spos by (simp add: frac_le)
  moreover have "(2::rat) powi (- k) = 1 / 2 ^ nat k"
  proof -
    have "(2::rat) powi (- k) = 1 / 2 powi k" by (rule power_int_minus_divide)
    also have "\<dots> = 1 / 2 ^ nat k" using k1 by (simp add: power_int_nonneg_exp)
    finally show ?thesis .
  qed
  ultimately have L: "2 powi (- k) \<le> x"
    using xs by simp
  have "1 / s < 1 / (2 ^ nat (k - 1))"
    using sL by (simp add: frac_less2)
  moreover have "(2::rat) powi (- k + 1) = 1 / 2 ^ nat (k - 1)"
  proof -
    have "(2::rat) powi (- k + 1) = 2 powi (- (k - 1))" by simp
    also have "\<dots> = 1 / 2 powi (k - 1)" by (rule power_int_minus_divide)
    also have "\<dots> = 1 / 2 ^ nat (k - 1)" using k1 by (simp add: power_int_nonneg_exp)
    finally show ?thesis .
  qed
  ultimately have U: "x < 2 powi (- k + 1)"
    using xs by simp
  from L U e show ?thesis by simp
qed

lemma binexp_mono_pos:
  assumes "0 < x" "x \<le> y"
  shows "binexp x \<le> binexp y"
proof -
  from assms have ypos: "0 < y" by simp
  from binexp_bounds_pos [OF assms(1)] binexp_bounds_pos [OF ypos] assms(2)
  have lt: "(2::rat) powi binexp x < 2 powi (binexp y + 1)" by linarith
  show ?thesis
  proof (rule ccontr)
    assume "\<not> binexp x \<le> binexp y"
    then have "binexp y + 1 \<le> binexp x" by simp
    then have "(2::rat) powi (binexp y + 1) \<le> 2 powi binexp x"
      by (rule power_int_increasing) simp
    with lt show False by simp
  qed
qed

lemma round_half_even_minus: "round_half_even (- y) = - round_half_even y"
proof (cases "y = of_int \<lfloor>y\<rfloor>")
  case True
  then obtain n where "y = of_int n" ..
  then have "- y = of_int (- n)" by simp
  with \<open>y = of_int n\<close> show ?thesis
    by (simp only: round_half_even_of_int)
next
  case False
  then have f: "\<lfloor>- y\<rfloor> = - \<lfloor>y\<rfloor> - 1"
    by (simp add: floor_minus ceiling_altdef)
  show ?thesis
    unfolding round_half_even_def Let_def f
    by (auto simp add: algebra_simps)
qed

lemma binexp_minus: "binexp (- x) = binexp x"
  by (simp add: binexp_def)

lemma binexp_unique:
  assumes "0 < x" "2 powi e \<le> x" "x < 2 powi (e + 1)"
  shows "binexp x = e"
proof -
  from binexp_bounds_pos [OF assms(1)]
  have b: "2 powi binexp x \<le> x" "x < 2 powi (binexp x + 1)" by simp_all
  have "\<not> binexp x + 1 \<le> e"
  proof
    assume "binexp x + 1 \<le> e"
    then have "(2::rat) powi (binexp x + 1) \<le> 2 powi e" by (rule power_int_increasing) simp
    with b(2) assms(2) show False by simp
  qed
  moreover have "\<not> e + 1 \<le> binexp x"
  proof
    assume "e + 1 \<le> binexp x"
    then have "(2::rat) powi (e + 1) \<le> 2 powi binexp x" by (rule power_int_increasing) simp
    with b(1) assms(3) show False by simp
  qed
  ultimately show ?thesis by simp
qed

lemma quantum_pos: "0 < quantum x"
  by (simp add: quantum_def)

lemma quantum_minus: "quantum (- x) = quantum x"
  by (simp add: quantum_def binexp_minus)

lemma round_f64_minus: "round_f64 (- x) = - round_f64 x"
  by (simp add: round_f64_def quantum_minus round_half_even_minus)

lemma round_f64_0: "round_f64 0 = 0"
  by (simp add: round_f64_def)

lemma round_f64_exact:
  assumes "x / quantum x = of_int m"
  shows "round_f64 x = x"
proof (cases "x = 0")
  case True
  then show ?thesis by (simp add: round_f64_def)
next
  case False
  from assms have "round_half_even (x / quantum x) = m" by (simp only: round_half_even_of_int)
  moreover from assms quantum_pos [of x] have "of_int m * quantum x = x"
    by (simp add: field_simps)
  ultimately show ?thesis using False by (simp add: round_f64_def)
qed

lemma scaled_lt:
  assumes "0 < x"
  shows "x / quantum x < 2 ^ 53"
proof -
  have "(2::rat) powi (binexp x - 52) \<le> quantum x"
    unfolding quantum_def by (rule power_int_increasing) simp_all
  moreover have p: "(0::rat) < 2 powi (binexp x - 52)" by simp
  ultimately have "x / quantum x \<le> x / 2 powi (binexp x - 52)"
    using assms by (simp add: frac_le)
  also have "\<dots> < 2 ^ 53"
  proof -
    have q: "(2::rat) powi (binexp x - 52) = 2 powi binexp x / 2 ^ 52"
      by (simp add: power_int_diff)
    have q1: "(2::rat) powi (binexp x + 1) = 2 powi binexp x * 2"
      by (simp add: power_int_add)
    have p: "(0::rat) < 2 powi binexp x" by simp
    from binexp_bounds_pos [OF assms] have "x < 2 powi binexp x * 2"
      by (simp add: q1)
    with p show ?thesis unfolding q by (simp add: field_simps)
  qed
  finally show ?thesis .
qed

lemma round_f64_le_pow:
  assumes "0 < x" "x \<le> 2 powi k" "- 1074 \<le> k"
  shows "round_f64 x \<le> 2 powi k"
proof -
  define j where "j = max (binexp x - 52) (- 1074)"
  have q: "quantum x = 2 powi j" by (simp add: quantum_def j_def)
  have "binexp x \<le> k"
  proof (rule ccontr)
    assume "\<not> binexp x \<le> k"
    then have "k + 1 \<le> binexp x" by simp
    then have "(2::rat) powi (k + 1) \<le> 2 powi binexp x" by (rule power_int_increasing) simp
    moreover have "(2::rat) powi k < 2 powi (k + 1)" by (rule power_int_strict_increasing) simp_all
    ultimately show False using binexp_bounds_pos [OF assms(1)] assms(2) by linarith
  qed
  with assms(3) have jk: "j \<le> k" by (simp add: j_def)
  then have e: "(2::rat) powi k = of_int (2 ^ nat (k - j)) * 2 powi j"
  proof -
    have "(2::rat) powi k = 2 powi (k - j) * 2 powi j"
      by (simp flip: power_int_add)
    also have "(2::rat) powi (k - j) = 2 ^ nat (k - j)"
      using jk by (simp add: power_int_nonneg_exp)
    finally show ?thesis by simp
  qed
  have "x / 2 powi j \<le> of_int (2 ^ nat (k - j))"
  proof -
    have "x / 2 powi j \<le> 2 powi k / 2 powi j"
      using assms(2) by (simp add: divide_right_mono)
    also have "\<dots> = of_int (2 ^ nat (k - j))" unfolding e by simp
    finally show ?thesis .
  qed
  then have "round_half_even (x / 2 powi j) \<le> round_half_even (of_int (2 ^ nat (k - j)))"
    by (rule round_half_even_mono)
  then have "round_half_even (x / 2 powi j) \<le> 2 ^ nat (k - j)"
    by (simp only: round_half_even_of_int)
  then have "(of_int (round_half_even (x / 2 powi j)) :: rat) \<le> of_int (2 ^ nat (k - j))"
    by (simp only: of_int_le_iff)
  then have "of_int (round_half_even (x / 2 powi j)) * (2::rat) powi j
             \<le> of_int (2 ^ nat (k - j)) * 2 powi j"
    by (simp only: mult_le_cancel_right_pos zero_less_power_int zero_less_numeral)
  then show ?thesis
    using assms(1) unfolding e by (simp add: round_f64_def q)
qed

lemma round_f64_ge_pow:
  assumes "2 powi k \<le> x" "- 1074 \<le> k" "k \<le> binexp x"
    and "max (binexp x - 52) (- 1074) \<le> k"
  shows "2 powi k \<le> round_f64 x"
proof -
  define j where "j = max (binexp x - 52) (- 1074)"
  have q: "quantum x = 2 powi j" by (simp add: quantum_def j_def)
  from assms(4) have jk: "j \<le> k" by (simp add: j_def)
  have xpos: "0 < x"
  proof -
    have "(0::rat) < 2 powi k" by simp
    with assms(1) show ?thesis by linarith
  qed
  have e: "(2::rat) powi k = of_int (2 ^ nat (k - j)) * 2 powi j"
  proof -
    have "(2::rat) powi k = 2 powi (k - j) * 2 powi j"
      by (simp flip: power_int_add)
    also have "(2::rat) powi (k - j) = 2 ^ nat (k - j)"
      using jk by (simp add: power_int_nonneg_exp)
    finally show ?thesis by simp
  qed
  have "of_int (2 ^ nat (k - j)) \<le> x / 2 powi j"
  proof -
    have "2 powi k / 2 powi j \<le> x / 2 powi j"
      using assms(1) by (simp add: divide_right_mono)
    moreover have "2 powi k / 2 powi j = (of_int (2 ^ nat (k - j)) :: rat)" unfolding e by simp
    ultimately show ?thesis by simp
  qed
  then have "round_half_even (of_int (2 ^ nat (k - j))) \<le> round_half_even (x / 2 powi j)"
    by (rule round_half_even_mono)
  then have "2 ^ nat (k - j) \<le> round_half_even (x / 2 powi j)"
    by (simp only: round_half_even_of_int)
  then have "(of_int (2 ^ nat (k - j)) :: rat) \<le> of_int (round_half_even (x / 2 powi j))"
    by (simp only: of_int_le_iff)
  then have "of_int (2 ^ nat (k - j)) * (2::rat) powi j
             \<le> of_int (round_half_even (x / 2 powi j)) * 2 powi j"
    by (simp only: mult_le_cancel_right_pos zero_less_power_int zero_less_numeral)
  then show ?thesis
    using xpos unfolding e by (simp add: round_f64_def q)
qed

lemma round_f64_nonneg:
  assumes "0 \<le> x"
  shows "0 \<le> round_f64 x"
proof (cases "x = 0")
  case True
  then show ?thesis by (simp add: round_f64_def)
next
  case False
  with assms have "0 < x" by simp
  with quantum_pos [of x] have "of_int 0 \<le> x / quantum x" by simp
  then have "round_half_even (of_int 0) \<le> round_half_even (x / quantum x)"
    by (rule round_half_even_mono)
  then have "0 \<le> round_half_even (x / quantum x)"
    by (simp only: round_half_even_of_int)
  then show ?thesis
    using False quantum_pos [of x] by (simp add: round_f64_def)
qed

lemma round_f64_mono_pos:
  assumes "0 < x" "x \<le> y"
  shows "round_f64 x \<le> round_f64 y"
proof -
  from assms have ypos: "0 < y" by simp
  define jx where "jx = max (binexp x - 52) (- 1074)"
  define jy where "jy = max (binexp y - 52) (- 1074)"
  from binexp_mono_pos [OF assms] have "jx \<le> jy" by (simp add: jx_def jy_def)
  then have "jx = jy \<or> jx < jy" by linarith
  then show ?thesis
  proof
    assume e: "jx = jy"
    then have q: "quantum x = quantum y" by (simp add: quantum_def jx_def jy_def)
    from assms(2) quantum_pos [of y] have "x / quantum y \<le> y / quantum y"
      by (simp add: divide_right_mono)
    then have "round_half_even (x / quantum y) \<le> round_half_even (y / quantum y)"
      by (rule round_half_even_mono)
    then have "(of_int (round_half_even (x / quantum y)) :: rat)
               \<le> of_int (round_half_even (y / quantum y))"
      by (simp only: of_int_le_iff)
    then have "of_int (round_half_even (x / quantum y)) * quantum y
               \<le> of_int (round_half_even (y / quantum y)) * quantum y"
      using quantum_pos [of y] by (simp only: mult_le_cancel_right_pos)
    then show ?thesis
      using assms(1) ypos by (simp add: round_f64_def q)
  next
    assume l: "jx < jy"
    then have n: "- 1074 < binexp y - 52"
      unfolding jx_def jy_def by linarith
    then have jy: "jy = binexp y - 52"
      unfolding jy_def by linarith
    from l jy have "binexp x < binexp y" unfolding jx_def by linarith
    then have "binexp x + 1 \<le> binexp y" by simp
    then have "(2::rat) powi (binexp x + 1) \<le> 2 powi binexp y"
      by (rule power_int_increasing) simp
    with binexp_bounds_pos [OF assms(1)] have xle: "x \<le> 2 powi binexp y" by linarith
    from n have k: "- 1074 \<le> binexp y" by simp
    from round_f64_le_pow [OF assms(1) xle k] have 1: "round_f64 x \<le> 2 powi binexp y" .
    from binexp_bounds_pos [OF ypos] have yge: "2 powi binexp y \<le> y" by simp
    from n have m: "max (binexp y - 52) (- 1074) \<le> binexp y" by simp
    from round_f64_ge_pow [OF yge k _ m] have 2: "2 powi binexp y \<le> round_f64 y" by simp
    from 1 2 show ?thesis by (rule order_trans)
  qed
qed

lemma round_f64_mono:
  assumes "x \<le> y"
  shows "round_f64 x \<le> round_f64 y"
proof -
  consider "0 < x" | "x \<le> 0" "0 \<le> y" | "y < 0" by linarith
  then show ?thesis
  proof cases
    case 1
    then show ?thesis using assms by (rule round_f64_mono_pos)
  next
    case 2
    from 2(1) have "0 \<le> - x" by simp
    then have "0 \<le> round_f64 (- x)" by (rule round_f64_nonneg)
    then have "round_f64 x \<le> 0" by (simp add: round_f64_minus)
    moreover from 2(2) have "0 \<le> round_f64 y" by (rule round_f64_nonneg)
    ultimately show ?thesis by simp
  next
    case 3
    then have "0 < - y" by simp
    moreover from assms have "- y \<le> - x" by simp
    ultimately have "round_f64 (- y) \<le> round_f64 (- x)" by (rule round_f64_mono_pos)
    then show ?thesis by (simp add: round_f64_minus)
  qed
qed

lemma round_f64_int_multiple_pos:
  assumes "0 < n" "n \<le> 2 ^ 53" "- 1074 \<le> k"
  shows "round_f64 (of_int n * 2 powi k) = of_int n * 2 powi k"
proof -
  define x :: rat where "x = of_int n * 2 powi k"
  define j where "j = max (binexp x - 52) (- 1074)"
  have q: "quantum x = 2 powi j" by (simp add: quantum_def j_def)
  from assms(1) have npos: "(0::rat) < of_int n" by simp
  then have xpos: "0 < x" by (simp add: x_def)
  from assms(2) have "(of_int n :: rat) \<le> of_int (2 ^ 53)" by (simp only: of_int_le_iff)
  then have n2: "(of_int n :: rat) \<le> 2 ^ 53" by simp
  show ?thesis
  proof (cases "n = 2 ^ 53")
    case True
    then have x2: "x = 2 powi (k + 53)" by (simp add: x_def power_int_add)
    have "binexp x = k + 53"
    proof (rule binexp_unique [OF xpos])
      show "2 powi (k + 53) \<le> x" by (simp add: x2)
      show "x < 2 powi (k + 53 + 1)" unfolding x2 by (rule power_int_strict_increasing) simp_all
    qed
    with assms(3) have j: "j = k + 1" by (simp add: j_def)
    have "x / 2 powi (k + 1) = of_int (2 ^ 52)"
      by (simp add: x2 power_int_add)
    then have "x / quantum x = of_int (2 ^ 52)"
      by (simp only: q j)
    then show ?thesis unfolding x_def [symmetric] by (rule round_f64_exact)
  next
    case False
    with assms(2) have "n + 1 \<le> 2 ^ 53" by simp
    then have "(of_int (n + 1) :: rat) \<le> of_int (2 ^ 53)" by (simp only: of_int_le_iff)
    then have "(of_int n :: rat) < 2 ^ 53" by simp
    then have "x < 2 ^ 53 * 2 powi k" unfolding x_def by simp
    also have "\<dots> = 2 powi (k + 53)" by (simp add: power_int_add)
    finally have xlt: "x < 2 powi (k + 53)" .
    have "binexp x < k + 53"
    proof (rule ccontr)
      assume "\<not> binexp x < k + 53"
      then have "k + 53 \<le> binexp x" by simp
      then have "(2::rat) powi (k + 53) \<le> 2 powi binexp x" by (rule power_int_increasing) simp
      with binexp_bounds_pos [OF xpos] xlt show False by linarith
    qed
    with assms(3) have jk: "j \<le> k" by (simp add: j_def)
    have "(2::rat) powi k = 2 powi (k - j) * 2 powi j" by (simp flip: power_int_add)
    also have "(2::rat) powi (k - j) = of_int (2 ^ nat (k - j))"
      using jk by (simp add: power_int_nonneg_exp)
    finally have "of_int n * 2 powi k / (2::rat) powi j = of_int (n * 2 ^ nat (k - j))"
      by simp
    then have "x / 2 powi j = of_int (n * 2 ^ nat (k - j))"
      by (simp only: x_def)
    then have "x / quantum x = of_int (n * 2 ^ nat (k - j))"
      by (simp only: q)
    then show ?thesis unfolding x_def [symmetric] by (rule round_f64_exact)
  qed
qed

lemma round_f64_int_multiple:
  assumes "\<bar>n\<bar> \<le> 2 ^ 53" "- 1074 \<le> k"
  shows "round_f64 (of_int n * 2 powi k) = of_int n * 2 powi k"
proof -
  consider "n = 0" | "0 < n" | "0 < - n" by linarith
  then show ?thesis
  proof cases
    case 1
    then show ?thesis by (simp add: round_f64_def)
  next
    case 2
    with assms show ?thesis by (intro round_f64_int_multiple_pos) simp_all
  next
    case 3
    with assms have "round_f64 (of_int (- n) * 2 powi k) = of_int (- n) * 2 powi k"
      by (intro round_f64_int_multiple_pos) simp_all
    then show ?thesis by (simp add: round_f64_minus)
  qed
qed

lemma round_f64_idem_pos:
  assumes "0 < x"
  shows "round_f64 (round_f64 x) = round_f64 x"
proof -
  define j where "j = max (binexp x - 52) (- 1074)"
  define n where "n = round_half_even (x / quantum x)"
  have q: "quantum x = 2 powi j" by (simp add: quantum_def j_def)
  have r: "round_f64 x = of_int n * 2 powi j"
    using assms by (simp add: round_f64_def n_def q)
  from scaled_lt [OF assms] have "x / quantum x \<le> of_int (2 ^ 53)" by simp
  then have "round_half_even (x / quantum x) \<le> round_half_even (of_int (2 ^ 53))"
    by (rule round_half_even_mono)
  then have hi: "n \<le> 2 ^ 53" by (simp only: round_half_even_of_int n_def)
  from assms quantum_pos [of x] have "of_int 0 \<le> x / quantum x" by simp
  then have "round_half_even (of_int 0) \<le> round_half_even (x / quantum x)"
    by (rule round_half_even_mono)
  then have lo: "0 \<le> n" by (simp only: round_half_even_of_int n_def)
  from lo hi have a: "\<bar>n\<bar> \<le> 2 ^ 53" by simp
  have b: "- 1074 \<le> j" by (simp add: j_def)
  show ?thesis unfolding r using a b by (rule round_f64_int_multiple)
qed

lemma round_f64_idem: "round_f64 (round_f64 x) = round_f64 x"
proof -
  consider "x = 0" | "0 < x" | "0 < - x" by linarith
  then show ?thesis
  proof cases
    case 1
    then show ?thesis by (simp add: round_f64_def)
  next
    case 2
    then show ?thesis by (rule round_f64_idem_pos)
  next
    case 3
    from round_f64_idem_pos [OF 3] show ?thesis
      by (simp add: round_f64_minus)
  qed
qed

lemma round_f64_of_int:
  assumes "\<bar>i\<bar> \<le> 2 ^ 53"
  shows "round_f64 (of_int i) = of_int i"
  using round_f64_int_multiple [OF assms, of 0] by simp

section \<open>Floats\<close>

lemma overflow_threshold_pos: "0 < overflow_threshold"
  by (simp add: overflow_threshold_def)

lemma rat_of_f64_of:
  "rat_of (f64_of x) = (if \<bar>round_f64 x\<bar> < overflow_threshold then round_f64 x else 0)"
  unfolding f64_of_def
  by (rule f64_abs_inverse) (simp add: round_f64_idem round_f64_0 overflow_threshold_pos)

lemma round_f64_rat_of: "round_f64 (rat_of a) = rat_of a"
  using rat_of [of a] by simp

lemma rat_of_bound: "\<bar>rat_of a\<bar> < overflow_threshold"
  using rat_of [of a] by simp

lemma f64_of_rat_of: "f64_of (rat_of a) = a"
  using rat_of_bound [of a] by (simp add: f64_of_def round_f64_rat_of rat_of_inverse)

lemma to_float_eval:
  assumes "round_f64 x = c" "\<bar>c\<bar> < 2 ^ 1024"
  shows "to_float x = Finite (f64_of x)" "rat_of (f64_of x) = c"
  using assms by (auto simp add: to_float_def rat_of_f64_of overflow_threshold_def)

lemma round_176: "round_f64 176 = 176"
  by code_simp

lemma round_rate: "round_f64 (100000 / 176) = 4997780126254545 / 8796093022208"
  by code_simp

lemma round_pay:
  "round_f64 (176 * (4997780126254545 / 8796093022208)) = 6871947673599999 / 68719476736"
  by code_simp

lemma float_of_int_176: "float_of_int 176 = Inr (Finite (f64_of 176))"
  using to_float_eval (1) [OF round_176] by (simp add: float_of_int_def)

lemma truediv_100000_176:
  "num_truediv (PyInt 100000) (PyInt 176) = Inr (PyFloat (Finite (f64_of (100000 / 176))))"
  using to_float_eval (1) [OF round_rate] by simp

lemma mul_176_rate:
  "num_mul (PyInt 176) (PyFloat (Finite (f64_of (100000 / 176))))
   = Inr (PyFloat (Finite (f64_of (176 * (4997780126254545 / 8796093022208)))))"
proof -
  have a: "rat_of (f64_of 176) = 176" using to_float_eval (2) [OF round_176] by simp
  have b: "rat_of (f64_of (100000 / 176)) = 4997780126254545 / 8796093022208"
    using to_float_eval (2) [OF round_rate] by simp
  have c: "to_float (176 * (4997780126254545 / 8796093022208))
           = Finite (f64_of (176 * (4997780126254545 / 8796093022208)))"
    using to_float_eval (1) [OF round_pay] by simp
  show ?thesis
    by (simp only: num_mul.simps as_float.simps float_of_int_176 sum.case fmul_def
        prod.case pyfloat.case a b c)
qed

section \<open>Comparing and adding numbers\<close>

lemma pynum_shapes:
  obtains (int) i where "x = PyInt i"
  | (finite) f where "x = PyFloat (Finite f)"
  | (posinf) "x = PyFloat PosInf"
  | (neginf) "x = PyFloat NegInf"
  | (nan) "x = PyFloat NaN"
proof (cases x)
  case (PyInt i)
  then show ?thesis by (rule int)
next
  case (PyFloat f)
  then show ?thesis by (cases f) (auto intro: finite posinf neginf nan)
qed

lemma num_lt_irrefl: "\<not> num_lt a a"
  by (cases a rule: pynum_shapes) simp_all

lemma num_lt_chain:
  assumes "\<not> num_lt b a" "\<not> num_lt c b" "b \<noteq> PyFloat NaN"
  shows "\<not> num_lt c a"
proof (cases a rule: pynum_shapes)
  case (int i)
  with assms show ?thesis
    by (cases b rule: pynum_shapes; cases c rule: pynum_shapes) auto
next
  case (finite f)
  with assms show ?thesis
    by (cases b rule: pynum_shapes; cases c rule: pynum_shapes) auto
next
  case posinf
  with assms show ?thesis
    by (cases b rule: pynum_shapes; cases c rule: pynum_shapes) auto
next
  case neginf
  with assms show ?thesis
    by (cases b rule: pynum_shapes; cases c rule: pynum_shapes) auto
next
  case nan
  with assms show ?thesis
    by (cases c rule: pynum_shapes) auto
qed

lemma keeps_up_refl: "keeps_up a a"
  by (simp add: keeps_up_def num_lt_irrefl)

lemma keeps_up_trans:
  assumes "keeps_up a b" "keeps_up b c"
  shows "keeps_up a c"
proof (cases "c = PyFloat NaN")
  case True
  then show ?thesis by (simp add: keeps_up_def)
next
  case False
  with assms(2) have b: "b \<noteq> PyFloat NaN" "\<not> num_lt c b" by (simp_all add: keeps_up_def)
  with assms(1) have a: "a \<noteq> PyFloat NaN" "\<not> num_lt b a" by (simp_all add: keeps_up_def)
  from a(2) b(2) b(1) have "\<not> num_lt c a" by (rule num_lt_chain)
  with a(1) show ?thesis by (simp add: keeps_up_def)
qed

lemma nan_not_lt: "\<not> num_lt (PyFloat NaN) a" "\<not> num_lt a (PyFloat NaN)"
  by (cases a rule: pynum_shapes; simp)+

lemma keeps_up_not_lt: "keeps_up a b \<Longrightarrow> \<not> num_lt b a"
  by (auto simp add: keeps_up_def nan_not_lt)

lemma to_float_cases:
  obtains (pos) "to_float x = PosInf" "overflow_threshold \<le> round_f64 x"
  | (neg) "to_float x = NegInf" "round_f64 x \<le> - overflow_threshold"
  | (fin) "to_float x = Finite (f64_of x)" "rat_of (f64_of x) = round_f64 x"
proof -
  consider "overflow_threshold \<le> round_f64 x" | "round_f64 x \<le> - overflow_threshold"
    | "\<bar>round_f64 x\<bar> < overflow_threshold" by linarith
  then show ?thesis
  proof cases
    case 1
    then show ?thesis by (intro pos) (simp_all add: to_float_def)
  next
    case 2
    then show ?thesis using overflow_threshold_pos by (intro neg) (simp_all add: to_float_def)
  next
    case 3
    then show ?thesis by (intro fin) (auto simp add: to_float_def rat_of_f64_of)
  qed
qed

lemma fsign_negative: "num_lt (PyFloat f) (PyInt 0) \<longleftrightarrow> fsign f < 0"
  by (cases f) simp_all

lemma fsign_to_float:
  assumes "0 \<le> x"
  shows "0 \<le> fsign (to_float x)"
proof -
  from assms have r: "0 \<le> round_f64 x" by (rule round_f64_nonneg)
  show ?thesis
  proof (cases x rule: to_float_cases)
    case pos
    then show ?thesis by simp
  next
    case neg
    with r overflow_threshold_pos show ?thesis by simp
  next
    case fin
    with r show ?thesis by simp
  qed
qed

lemma fsign_nonneg_rat: "0 \<le> fsign (Finite a) \<longleftrightarrow> 0 \<le> rat_of a"
  by simp

lemma fadd_sign:
  assumes "0 \<le> fsign x" "0 \<le> fsign y"
  shows "0 \<le> fsign (fadd x y)"
proof (cases x)
  case (Finite a)
  show ?thesis
  proof (cases y)
    case (Finite b)
    with \<open>x = Finite a\<close> assms have "0 \<le> rat_of a + rat_of b"
      by (simp split: if_splits)
    then have "0 \<le> fsign (to_float (rat_of a + rat_of b))" by (rule fsign_to_float)
    with Finite \<open>x = Finite a\<close> show ?thesis by simp
  qed (use assms \<open>x = Finite a\<close> in simp_all)
next
  case PosInf
  with assms show ?thesis by (cases y) simp_all
next
  case NegInf
  with assms show ?thesis by simp
next
  case NaN
  then show ?thesis by simp
qed

lemma to_float_keeps:
  assumes "0 \<le> b"
  shows "\<not> flt (to_float (rat_of a + b)) (Finite a)"
proof -
  from assms have "rat_of a \<le> rat_of a + b" by simp
  then have "round_f64 (rat_of a) \<le> round_f64 (rat_of a + b)" by (rule round_f64_mono)
  then have m: "rat_of a \<le> round_f64 (rat_of a + b)" by (simp only: round_f64_rat_of)
  show ?thesis
  proof (cases "rat_of a + b" rule: to_float_cases)
    case pos
    then show ?thesis by simp
  next
    case neg
    with m rat_of_bound [of a] show ?thesis by simp
  next
    case fin
    with m show ?thesis by simp
  qed
qed

lemma fadd_keeps:
  assumes "0 \<le> fsign y"
  shows "fadd x y = NaN \<or> (x \<noteq> NaN \<and> \<not> flt (fadd x y) x)"
proof (cases x)
  case (Finite a)
  show ?thesis
  proof (cases y)
    case (Finite b)
    with assms have "0 \<le> rat_of b" by (simp split: if_splits)
    then have "\<not> flt (to_float (rat_of a + rat_of b)) (Finite a)" by (rule to_float_keeps)
    with Finite \<open>x = Finite a\<close> show ?thesis by simp
  qed (use assms \<open>x = Finite a\<close> in simp_all)
next
  case PosInf
  then show ?thesis by (cases y) simp_all
next
  case NegInf
  then show ?thesis by (cases y) simp_all
next
  case NaN
  then show ?thesis by simp
qed

lemma float_of_int_Inr:
  assumes "float_of_int i = Inr f"
  shows "f = Finite (f64_of (of_int i))" "rat_of (f64_of (of_int i)) = round_f64 (of_int i)"
  using assms by (cases "of_int i :: rat" rule: to_float_cases; simp add: float_of_int_def)+

lemma as_float_sign:
  assumes "\<not> num_lt x (PyInt 0)" "as_float x = Inr f"
  shows "0 \<le> fsign f"
proof (cases x)
  case (PyInt i)
  with assms(1) have "(0::rat) \<le> of_int i" by simp
  then have "0 \<le> round_f64 (of_int i)" by (rule round_f64_nonneg)
  with float_of_int_Inr [of i f] assms(2) PyInt show ?thesis by simp
next
  case (PyFloat g)
  with assms show ?thesis by (simp add: fsign_negative)
qed

lemma num_add_nonneg:
  assumes "\<not> num_lt a (PyInt 0)" "\<not> num_lt h (PyInt 0)" "num_add a h = Inr s"
  shows "\<not> num_lt s (PyInt 0)"
proof (cases "\<exists>i j. a = PyInt i \<and> h = PyInt j")
  case True
  with assms show ?thesis by auto
next
  case False
  with assms(3) obtain fa fh where f: "as_float a = Inr fa" "as_float h = Inr fh"
    and s: "s = PyFloat (fadd fa fh)"
    by (cases a; cases h) (auto split: sum.splits)
  from as_float_sign [OF assms(1) f(1)] as_float_sign [OF assms(2) f(2)]
  have "0 \<le> fsign (fadd fa fh)" by (rule fadd_sign)
  then show ?thesis by (simp add: s fsign_negative)
qed

lemma num_add_keeps_up:
  assumes "\<not> num_lt h (PyInt 0)" "num_add a h = Inr s"
    and "(\<exists>g. h = PyFloat g) \<longrightarrow> exact_in_float a"
  shows "keeps_up a s"
proof (cases a)
  case (PyInt i)
  show ?thesis
  proof (cases h)
    case (PyInt j)
    with assms \<open>a = PyInt i\<close> show ?thesis by (auto simp add: keeps_up_def)
  next
    case (PyFloat fh)
    with assms(3) \<open>a = PyInt i\<close> have ex: "round_f64 (of_int i) = of_int i" by simp
    from assms(2) PyFloat \<open>a = PyInt i\<close> obtain fa where fa: "float_of_int i = Inr fa"
      and s: "s = PyFloat (fadd fa fh)"
      by (auto split: sum.splits)
    from float_of_int_Inr [OF fa] ex have fa': "fa = Finite (f64_of (of_int i))"
      and v: "rat_of (f64_of (of_int i)) = of_int i" by simp_all
    from assms(1) PyFloat have "0 \<le> fsign fh" by (simp add: fsign_negative)
    from fadd_keeps [OF this, of fa]
    have "fadd fa fh = NaN \<or> \<not> flt (fadd fa fh) fa" by blast
    then show ?thesis
    proof
      assume "fadd fa fh = NaN"
      then show ?thesis by (simp add: keeps_up_def s)
    next
      assume n: "\<not> flt (fadd fa fh) fa"
      have "\<not> num_lt (PyFloat (fadd fa fh)) (PyInt i)"
        using n v unfolding fa' by (cases "fadd (Finite (f64_of (of_int i))) fh") simp_all
      then show ?thesis by (simp add: keeps_up_def s \<open>a = PyInt i\<close>)
    qed
  qed
next
  case (PyFloat fa)
  from assms(2) PyFloat obtain fh where fh: "as_float h = Inr fh"
    and s: "s = PyFloat (fadd fa fh)"
    by (auto split: sum.splits)
  from as_float_sign [OF assms(1) fh] have "0 \<le> fsign fh" .
  from fadd_keeps [OF this, of fa] show ?thesis
    by (auto simp add: keeps_up_def s PyFloat)
qed

section \<open>Employee\<close>

lemma Employee_call_inv:
  assumes "employee_inv e"
  shows "employee_inv (Employee_call e x)"
proof (cases x)
  case (Add_hours h)
  show ?thesis
  proof (cases "num_lt h (PyInt 0)")
    case True
    with assms Add_hours show ?thesis by (simp add: Employee_add_hours_def)
  next
    case False
    show ?thesis
    proof (cases "num_add (emp_hours_worked e) h")
      case (Inl err)
      with assms Add_hours False show ?thesis by (simp add: Employee_add_hours_def)
    next
      case (Inr s)
      from assms have "\<not> num_lt (emp_hours_worked e) (PyInt 0)" by (simp add: employee_inv_def)
      from num_add_nonneg [OF this False Inr] have "\<not> num_lt s (PyInt 0)" .
      with assms Add_hours False Inr show ?thesis
        by (simp add: Employee_add_hours_def employee_inv_def)
    qed
  qed
qed (use assms in \<open>simp_all add: employee_inv_def Employee_set_id_def Employee_set_name_def
      Employee_set_position_def Employee_set_salary_def\<close>)

lemma Employee_call_keeps_up:
  assumes "adds_float x \<longrightarrow> exact_in_float (emp_hours_worked e)"
  shows "keeps_up (emp_hours_worked e) (emp_hours_worked (Employee_call e x))"
proof (cases x)
  case (Add_hours h)
  show ?thesis
  proof (cases "num_lt h (PyInt 0)")
    case True
    with Add_hours show ?thesis by (simp add: Employee_add_hours_def keeps_up_refl)
  next
    case False
    show ?thesis
    proof (cases "num_add (emp_hours_worked e) h")
      case (Inl err)
      with Add_hours False show ?thesis by (simp add: Employee_add_hours_def keeps_up_refl)
    next
      case (Inr s)
      from assms Add_hours have "(\<exists>g. h = PyFloat g) \<longrightarrow> exact_in_float (emp_hours_worked e)"
        by auto
      from num_add_keeps_up [OF False Inr this] Add_hours False Inr show ?thesis
        by (simp add: Employee_add_hours_def)
    qed
  qed
qed (simp_all add: keeps_up_refl Employee_set_id_def Employee_set_name_def
      Employee_set_position_def Employee_set_salary_def)

lemma Employee_calls_inv:
  "employee_inv e \<Longrightarrow> employee_inv (Employee_calls e ops)"
proof (induction ops arbitrary: e)
  case Nil
  then show ?case by (simp add: Employee_calls_def)
next
  case (Cons x ops)
  from Cons.prems have "employee_inv (Employee_call e x)" by (rule Employee_call_inv)
  then have "employee_inv (Employee_calls (Employee_call e x) ops)" by (rule Cons.IH)
  then show ?case by (simp add: Employee_calls_def)
qed

lemma Employee_calls_keeps_up:
  "conversions_exact e ops \<Longrightarrow>
   keeps_up (emp_hours_worked e) (emp_hours_worked (Employee_calls e ops))"
proof (induction ops arbitrary: e)
  case Nil
  then show ?case by (simp add: Employee_calls_def keeps_up_refl)
next
  case (Cons x ops)
  from Cons.prems have 1: "adds_float x \<longrightarrow> exact_in_float (emp_hours_worked e)"
    and 2: "conversions_exact (Employee_call e x) ops" by (simp_all split: if_splits)
  from 1 have "keeps_up (emp_hours_worked e) (emp_hours_worked (Employee_call e x))"
    by (rule Employee_call_keeps_up)
  moreover from 2
  have "keeps_up (emp_hours_worked (Employee_call e x))
          (emp_hours_worked (Employee_calls (Employee_call e x) ops))"
    by (rule Cons.IH)
  ultimately show ?case
    unfolding Employee_calls_def foldl_Cons by (rule keeps_up_trans)
qed

lemma conversions_exact_append:
  "conversions_exact e (ops1 @ ops2) \<Longrightarrow> conversions_exact (Employee_calls e ops1) ops2"
proof (induction ops1 arbitrary: e)
  case Nil
  then show ?case by (simp add: Employee_calls_def)
next
  case (Cons x ops1)
  then show ?case by (simp add: Employee_calls_def)
qed

text \<open>
  Claim C2, as amended. The constructor stores what it is given, so the invariant of an
  Employee is not established by construction. Every public operation keeps it: from an
  employee whose name is not blank and whose salary and hours are not negative, every
  sequence of calls of \<^verbatim>\<open>set_id\<close>, \<^verbatim>\<open>set_name\<close>, \<^verbatim>\<open>set_position\<close>, \<^verbatim>\<open>set_salary\<close> and
  \<^verbatim>\<open>add_hours\<close>, raising or not, ends in an employee with the same three properties.
  The hours at a later point of the sequence are not less than at an earlier point,
  provided no \<^verbatim>\<open>add_hours\<close> adds a float to hours that are an int without an exact
  float: that sum converts the int first, and the conversion can round down.
\<close>

theorem employee_invariant_preserved:
  assumes "employee_inv e"
  shows "employee_inv (Employee_calls e (ops1 @ ops2))
     \<and> (conversions_exact e (ops1 @ ops2) \<longrightarrow>
          \<not> num_lt (emp_hours_worked (Employee_calls e (ops1 @ ops2)))
                   (emp_hours_worked (Employee_calls e ops1)))"
proof -
  have c: "Employee_calls e (ops1 @ ops2) = Employee_calls (Employee_calls e ops1) ops2"
    by (simp add: Employee_calls_def)
  have "\<not> num_lt (emp_hours_worked (Employee_calls e (ops1 @ ops2)))
                   (emp_hours_worked (Employee_calls e ops1))"
    if "conversions_exact e (ops1 @ ops2)"
  proof -
    from that have "conversions_exact (Employee_calls e ops1) ops2"
      by (rule conversions_exact_append)
    then have "keeps_up (emp_hours_worked (Employee_calls e ops1))
                 (emp_hours_worked (Employee_calls (Employee_calls e ops1) ops2))"
      by (rule Employee_calls_keeps_up)
    then show ?thesis unfolding c by (rule keeps_up_not_lt)
  qed
  with Employee_calls_inv [OF assms, of "ops1 @ ops2"] show ?thesis by blast
qed

lemma round_half: "round_f64 (1 / 2) = 1 / 2"
  by code_simp

lemma round_353_2: "round_f64 (353 / 2) = 353 / 2"
  by code_simp

lemma round_2_53_1: "round_f64 9007199254740993 = 9007199254740992"
  by code_simp

lemma round_2_53: "round_f64 9007199254740992 = 9007199254740992"
  by code_simp

lemma float_of_int_2_53_1:
  "float_of_int 9007199254740993 = Inr (Finite (f64_of 9007199254740993))"
  using to_float_eval (1) [OF round_2_53_1] by (simp add: float_of_int_def)

lemma sample_sum_176_half:
  "num_add (PyInt 176) (PyFloat (Finite (f64_of (1 / 2)))) = Inr (PyFloat (Finite (f64_of (353 / 2))))"
proof -
  have a: "rat_of (f64_of 176) = 176" using to_float_eval (2) [OF round_176] by simp
  have b: "rat_of (f64_of (1 / 2)) = 1 / 2" using to_float_eval (2) [OF round_half] by simp
  have c: "to_float (353 / 2) = Finite (f64_of (353 / 2))"
    using to_float_eval (1) [OF round_353_2] by simp
  have "fadd (Finite (f64_of 176)) (Finite (f64_of (1 / 2))) = Finite (f64_of (353 / 2))"
    by (simp add: a b c)
  then show ?thesis by (simp add: float_of_int_176)
qed

lemma sample_sum_lossy:
  "num_add (PyInt 9007199254740993) (PyFloat (Finite (f64_of 0)))
   = Inr (PyFloat (Finite (f64_of 9007199254740992)))"
proof -
  have a: "rat_of (f64_of 9007199254740993) = 9007199254740992"
    using to_float_eval (2) [OF round_2_53_1] by simp
  have b: "rat_of (f64_of 0) = 0" using to_float_eval (2) [OF round_f64_0] by simp
  have c: "to_float 9007199254740992 = Finite (f64_of 9007199254740992)"
    using to_float_eval (1) [OF round_2_53] by simp
  have "fadd (Finite (f64_of 9007199254740993)) (Finite (f64_of 0))
        = Finite (f64_of 9007199254740992)"
    by (simp add: a b c)
  then show ?thesis by (simp add: float_of_int_2_53_1)
qed

text \<open>
  The witness runs four calls, two of which raise, from an employee the test suite
  builds: the hours go from 0 to 176 and, with half an hour added as a float, to 176.5.
\<close>

theorem employee_invariant_preserved_witness:
  "employee_inv (Employee_init [65, 110, 110] [100, 101, 118] (PyInt 100000) (PyInt 0) None)
   \<and> conversions_exact
        (Employee_init [65, 110, 110] [100, 101, 118] (PyInt 100000) (PyInt 0) None)
        ([Add_hours (PyInt 176), Set_name [32]]
         @ [Set_salary (PyInt (- 1)), Add_hours (PyFloat (Finite (f64_of (1 / 2))))])
   \<and> employee_inv
        (Employee_calls
           (Employee_init [65, 110, 110] [100, 101, 118] (PyInt 100000) (PyInt 0) None)
           ([Add_hours (PyInt 176), Set_name [32]]
            @ [Set_salary (PyInt (- 1)), Add_hours (PyFloat (Finite (f64_of (1 / 2))))]))
   \<and> emp_hours_worked
        (Employee_calls
           (Employee_init [65, 110, 110] [100, 101, 118] (PyInt 100000) (PyInt 0) None)
           [Add_hours (PyInt 176), Set_name [32]]) = PyInt 176
   \<and> emp_hours_worked
        (Employee_calls
           (Employee_init [65, 110, 110] [100, 101, 118] (PyInt 100000) (PyInt 0) None)
           ([Add_hours (PyInt 176), Set_name [32]]
            @ [Set_salary (PyInt (- 1)), Add_hours (PyFloat (Finite (f64_of (1 / 2))))]))
       = PyFloat (Finite (f64_of (353 / 2)))
   \<and> \<not> num_lt (PyFloat (Finite (f64_of (353 / 2)))) (PyInt 176)"
proof -
  let ?e = "Employee_init [65, 110, 110] [100, 101, 118] (PyInt 100000) (PyInt 0) None"
  let ?ops1 = "[Add_hours (PyInt 176), Set_name [32]]"
  let ?ops2 = "[Set_salary (PyInt (- 1)), Add_hours (PyFloat (Finite (f64_of (1 / 2))))]"
  have z: "\<not> num_lt (PyFloat (Finite (f64_of (1 / 2)))) (PyInt 0)"
    using to_float_eval (2) [OF round_half] by simp
  have h1: "employee_inv ?e"
    by (simp add: employee_inv_def Employee_init_def strip_def isspace_def)
  have v1: "Employee_calls ?e ?ops1
            = Employee_init [65, 110, 110] [100, 101, 118] (PyInt 100000) (PyInt 176) None"
    by (simp add: Employee_calls_def Employee_init_def Employee_add_hours_def
        Employee_set_name_def strip_def isspace_def)
  have v2: "Employee_calls ?e (?ops1 @ ?ops2)
            = Employee_init [65, 110, 110] [100, 101, 118] (PyInt 100000)
                (PyFloat (Finite (f64_of (353 / 2)))) None"
  proof -
    have "Employee_calls ?e (?ops1 @ ?ops2) = Employee_calls (Employee_calls ?e ?ops1) ?ops2"
      by (simp add: Employee_calls_def)
    also have "\<dots> = Employee_init [65, 110, 110] [100, 101, 118] (PyInt 100000)
                (PyFloat (Finite (f64_of (353 / 2)))) None"
      unfolding v1 using z
      by (simp add: Employee_calls_def Employee_init_def Employee_add_hours_def
          Employee_set_salary_def sample_sum_176_half del: num_add.simps)
    finally show ?thesis .
  qed
  have h2: "conversions_exact ?e (?ops1 @ ?ops2)"
    by (simp add: Employee_init_def Employee_add_hours_def Employee_set_name_def
        Employee_set_salary_def strip_def isspace_def round_176)
  from employee_invariant_preserved [OF h1, of ?ops1 ?ops2] h2
  have 1: "employee_inv (Employee_calls ?e (?ops1 @ ?ops2))"
    and 2: "\<not> num_lt (emp_hours_worked (Employee_calls ?e (?ops1 @ ?ops2)))
                     (emp_hours_worked (Employee_calls ?e ?ops1))"
    by blast+
  from 2 have 3: "\<not> num_lt (PyFloat (Finite (f64_of (353 / 2)))) (PyInt 176)"
    unfolding v1 v2 by (simp add: Employee_init_def)
  have 4: "emp_hours_worked (Employee_calls ?e ?ops1) = PyInt 176"
    unfolding v1 by (simp add: Employee_init_def)
  have 5: "emp_hours_worked (Employee_calls ?e (?ops1 @ ?ops2))
           = PyFloat (Finite (f64_of (353 / 2)))"
    unfolding v2 by (simp add: Employee_init_def)
  from h1 h2 1 4 5 3 show ?thesis by (intro conjI)
qed

text \<open>
  Claim C2 as stated fails in two ways. \<^verbatim>\<open>Employee("  ", "", -1000, -5)\<close> is built
  without an error, and its name is blank and its salary and hours are negative. And
  from \<^verbatim>\<open>Employee("A", "", 1, 0)\<close>, \<^verbatim>\<open>add_hours(9007199254740993)\<close> followed by
  \<^verbatim>\<open>add_hours(0.0)\<close> leaves the hours at 9007199254740992.0, less than they were
  after the first call.
\<close>

theorem employee_invariant_counterexample:
  "\<not> employee_inv
        (Employee_calls (Employee_init [32, 32] [] (PyInt (- 1000)) (PyInt (- 5)) None) [])
   \<and> employee_inv (Employee_init [65] [] (PyInt 1) (PyInt 0) None)
   \<and> num_lt
        (emp_hours_worked
           (Employee_calls (Employee_init [65] [] (PyInt 1) (PyInt 0) None)
              ([Add_hours (PyInt 9007199254740993)] @ [Add_hours (PyFloat (Finite (f64_of 0)))])))
        (emp_hours_worked
           (Employee_calls (Employee_init [65] [] (PyInt 1) (PyInt 0) None)
              [Add_hours (PyInt 9007199254740993)]))"
proof -
  let ?e = "Employee_init [65] [] (PyInt 1) (PyInt 0) None"
  have z: "\<not> num_lt (PyFloat (Finite (f64_of 0))) (PyInt 0)"
    using to_float_eval (2) [OF round_f64_0] by simp
  have 1: "\<not> employee_inv
        (Employee_calls (Employee_init [32, 32] [] (PyInt (- 1000)) (PyInt (- 5)) None) [])"
    by (simp add: employee_inv_def Employee_calls_def Employee_init_def)
  have 2: "employee_inv ?e"
    by (simp add: employee_inv_def Employee_init_def strip_def isspace_def)
  have a0: "Employee_calls ?e [Add_hours (PyInt 9007199254740993)]
           = Employee_init [65] [] (PyInt 1) (PyInt 9007199254740993) None"
    by (simp add: Employee_calls_def Employee_init_def Employee_add_hours_def)
  have a: "emp_hours_worked (Employee_calls ?e [Add_hours (PyInt 9007199254740993)])
           = PyInt 9007199254740993"
    unfolding a0 by (simp add: Employee_init_def)
  have b: "emp_hours_worked
             (Employee_calls ?e
                ([Add_hours (PyInt 9007199254740993)] @ [Add_hours (PyFloat (Finite (f64_of 0)))]))
           = PyFloat (Finite (f64_of 9007199254740992))"
  proof -
    have "Employee_calls ?e
                ([Add_hours (PyInt 9007199254740993)] @ [Add_hours (PyFloat (Finite (f64_of 0)))])
          = Employee_calls (Employee_calls ?e [Add_hours (PyInt 9007199254740993)])
              [Add_hours (PyFloat (Finite (f64_of 0)))]"
      by (simp add: Employee_calls_def)
    also have "emp_hours_worked \<dots> = PyFloat (Finite (f64_of 9007199254740992))"
      unfolding a0 using z
      by (simp add: Employee_calls_def Employee_init_def Employee_add_hours_def
          sample_sum_lossy del: num_add.simps)
    finally show ?thesis .
  qed
  have c: "num_lt (PyFloat (Finite (f64_of 9007199254740992))) (PyInt 9007199254740993)"
    using to_float_eval (2) [OF round_2_53] by simp
  from c have 3: "num_lt
        (emp_hours_worked
           (Employee_calls ?e
              ([Add_hours (PyInt 9007199254740993)] @ [Add_hours (PyFloat (Finite (f64_of 0)))])))
        (emp_hours_worked (Employee_calls ?e [Add_hours (PyInt 9007199254740993)]))"
    unfolding a b .
  from 1 2 3 show ?thesis by (intro conjI)
qed

section \<open>Pay\<close>

text \<open>
  Claim C5 at the input of its scenario. With salary 100000 and 176 hours accrued by
  \<^verbatim>\<open>add_hours\<close>, \<^verbatim>\<open>calculate_pay\<close> first rounds \<open>100000 / 176\<close> to binary64 and then
  rounds the product with 176: it returns the float \<open>6871947673599999 / 68719476736\<close>,
  which Python prints as 99999.99999999999, and that float is not equal to 100000.
\<close>

theorem calculate_pay_full_month:
  "\<exists>p. Employee_calculate_pay
          (snd (Employee_add_hours
                  (Employee_init name position (PyInt 100000) (PyInt 0) employee_id)
                  (PyInt 176)))
        = Inr (PyFloat (Finite p))
      \<and> rat_of p = 6871947673599999 / 68719476736
      \<and> \<not> num_eq (PyFloat (Finite p)) (PyInt 100000)"
proof -
  let ?p = "f64_of (176 * (4997780126254545 / 8796093022208))"
  have h: "snd (Employee_add_hours
                  (Employee_init name position (PyInt 100000) (PyInt 0) employee_id)
                  (PyInt 176))
           = Employee_init name position (PyInt 100000) (PyInt 176) employee_id"
    by (simp add: Employee_add_hours_def Employee_init_def)
  have v: "rat_of ?p = 6871947673599999 / 68719476736"
    using to_float_eval (2) [OF round_pay] by simp
  have pay: "Employee_calculate_pay (Employee_init name position (PyInt 100000) (PyInt 176) employee_id)
        = Inr (PyFloat (Finite ?p))"
    by (simp only: Employee_calculate_pay_def Employee_init_def employee.simps
        truediv_100000_176 sum.case mul_176_rate)
  have ne: "\<not> num_eq (PyFloat (Finite ?p)) (PyInt 100000)"
    unfolding num_eq.simps v by simp
  show ?thesis
    unfolding h by (rule exI [of _ ?p], intro conjI, rule pay, rule v, rule ne)
qed

text \<open>
  Two other values of the scenario of claim C5 are as it says: at salary 100000 the pay
  for 264 hours is exactly 150000 and the pay for no hours is zero.
\<close>

lemma round_264: "round_f64 264 = 264"
  by code_simp

lemma round_pay_264: "round_f64 (264 * (4997780126254545 / 8796093022208)) = 150000"
  by code_simp

lemma calculate_pay_264_hours:
  "\<exists>p. Employee_calculate_pay
          (Employee_init name position (PyInt 100000) (PyInt 264) employee_id)
        = Inr (PyFloat (Finite p))
      \<and> rat_of p = 150000"
proof -
  let ?p = "f64_of (264 * (4997780126254545 / 8796093022208))"
  have a: "rat_of (f64_of 264) = 264" using to_float_eval (2) [OF round_264] by simp
  have f: "float_of_int 264 = Inr (Finite (f64_of 264))"
    using to_float_eval (1) [OF round_264] by (simp add: float_of_int_def)
  have b: "rat_of (f64_of (100000 / 176)) = 4997780126254545 / 8796093022208"
    using to_float_eval (2) [OF round_rate] by simp
  have c: "to_float (264 * (4997780126254545 / 8796093022208)) = Finite ?p"
    using to_float_eval (1) [OF round_pay_264] by simp
  have m: "num_mul (PyInt 264) (PyFloat (Finite (f64_of (100000 / 176))))
           = Inr (PyFloat (Finite ?p))"
    by (simp only: num_mul.simps as_float.simps f sum.case fmul_def
        prod.case pyfloat.case a b c)
  have v: "rat_of ?p = 150000"
    using to_float_eval (2) [OF round_pay_264] by simp
  have pay: "Employee_calculate_pay
          (Employee_init name position (PyInt 100000) (PyInt 264) employee_id)
        = Inr (PyFloat (Finite ?p))"
    by (simp only: Employee_calculate_pay_def Employee_init_def employee.simps
        truediv_100000_176 sum.case m)
  show ?thesis
    by (rule exI [of _ ?p], intro conjI, rule pay, rule v)
qed

lemma calculate_pay_zero_hours:
  "\<exists>p. Employee_calculate_pay
          (Employee_init name position (PyInt 100000) (PyInt 0) employee_id)
        = Inr (PyFloat (Finite p))
      \<and> rat_of p = 0"
proof -
  have a: "rat_of (f64_of 0) = 0" using to_float_eval (2) [OF round_f64_0] by simp
  have f: "float_of_int 0 = Inr (Finite (f64_of 0))"
    using to_float_eval (1) [OF round_f64_0] by (simp add: float_of_int_def)
  have c: "to_float 0 = Finite (f64_of 0)"
    using to_float_eval (1) [OF round_f64_0] by simp
  have m: "num_mul (PyInt 0) (PyFloat (Finite (f64_of (100000 / 176))))
           = Inr (PyFloat (Finite (f64_of 0)))"
    by (simp add: f fmul_def a c)
  have pay: "Employee_calculate_pay
          (Employee_init name position (PyInt 100000) (PyInt 0) employee_id)
        = Inr (PyFloat (Finite (f64_of 0)))"
    by (simp only: Employee_calculate_pay_def Employee_init_def employee.simps
        truediv_100000_176 sum.case m)
  show ?thesis
    by (rule exI [of _ "f64_of 0"], intro conjI, rule pay, rule a)
qed

section \<open>Strings that strip to nothing\<close>

lemma strip_empty_iff: "strip s = [] \<longleftrightarrow> (\<forall>c\<in>set s. isspace c)"
proof -
  have "(\<forall>c\<in>set (dropWhile isspace s). isspace c) \<longleftrightarrow> (\<forall>c\<in>set s. isspace c)"
  proof
    assume a: "\<forall>c\<in>set (dropWhile isspace s). isspace c"
    have "dropWhile isspace s = []"
    proof (rule ccontr)
      assume n: "dropWhile isspace s \<noteq> []"
      then have "\<not> isspace (hd (dropWhile isspace s))" by (rule hd_dropWhile)
      moreover from n have "hd (dropWhile isspace s) \<in> set (dropWhile isspace s)" by simp
      ultimately show False using a by blast
    qed
    then show "\<forall>c\<in>set s. isspace c" by (simp add: dropWhile_eq_Nil_conv)
  next
    assume "\<forall>c\<in>set s. isspace c"
    then show "\<forall>c\<in>set (dropWhile isspace s). isspace c"
      by (blast dest: set_dropWhileD)
  qed
  then show ?thesis
    by (simp add: strip_def dropWhile_eq_Nil_conv)
qed

section \<open>Name and title setters\<close>

text \<open>
  Claim C6. For the name of an Employee and the title of a Project and of a Task: a
  value whose characters are all whitespace (the empty string included) makes the
  setter raise \<^verbatim>\<open>ValueError\<close> and leaves the object as it was; a value with a character
  that is not whitespace is stored, and nothing else changes.
\<close>

theorem setters_reject_blank_names:
  "((\<forall>c\<in>set v. isspace c) \<longrightarrow>
      Employee_set_name e v = (Inl ValueError, e)
      \<and> Project_set_title p v = (Inl ValueError, p)
      \<and> Task_set_title t v = (Inl ValueError, t))
   \<and> ((\<exists>c\<in>set v. \<not> isspace c) \<longrightarrow>
      Employee_set_name e v = (Inr (), e\<lparr>emp_name := v\<rparr>)
      \<and> Project_set_title p v = (Inr (), p\<lparr>po_title := v\<rparr>)
      \<and> Task_set_title t v = (Inr (), t\<lparr>task_title := v\<rparr>))"
  using strip_empty_iff [of v]
  by (auto simp add: Employee_set_name_def Project_set_title_def Task_set_title_def)

theorem setters_reject_blank_names_witness:
  "list_all isspace [32, 9, 32]
   \<and> Employee_set_name (Employee_init [65] [] (PyInt 1) (PyInt 0) None) [32, 9, 32]
       = (Inl ValueError, Employee_init [65] [] (PyInt 1) (PyInt 0) None)
   \<and> (\<exists>c\<in>set [32, 66, 111, 98]. \<not> isspace c)
   \<and> Task_set_title (Task_init [65] [] V_processe None None None) [32, 66, 111, 98]
       = (Inr (), (Task_init [65] [] V_processe None None None)\<lparr>task_title := [32, 66, 111, 98]\<rparr>)"
proof -
  have h1: "\<forall>c\<in>set [32, 9, 32]. isspace c" by (simp add: isspace_def)
  have h2: "\<exists>c\<in>set [32, 66, 111, 98]. \<not> isspace c" by (simp add: isspace_def)
  from setters_reject_blank_names [of "[32, 9, 32]" "Employee_init [65] [] (PyInt 1) (PyInt 0) None"] h1
  have 1: "Employee_set_name (Employee_init [65] [] (PyInt 1) (PyInt 0) None) [32, 9, 32]
       = (Inl ValueError, Employee_init [65] [] (PyInt 1) (PyInt 0) None)" by blast
  from setters_reject_blank_names [of "[32, 66, 111, 98]" _ _
      "Task_init [65] [] V_processe None None None"] h2
  have 2: "Task_set_title (Task_init [65] [] V_processe None None None) [32, 66, 111, 98]
       = (Inr (), (Task_init [65] [] V_processe None None None)\<lparr>task_title := [32, 66, 111, 98]\<rparr>)"
    by blast
  from h1 have h1': "list_all isspace [32, 9, 32]" by (simp only: list_all_iff)
  from h1' 1 h2 2 show ?thesis by blast
qed

section \<open>Task\<close>

lemma Task_call_completed: "Task_is_completed t \<Longrightarrow> Task_is_completed (Task_call t x)"
  by (cases x)
    (simp_all add: Task_is_completed_def Task_set_id_def Task_set_title_def
      Task_set_description_def Task_set_project_id_def Task_assign_employee_def
      Task_mark_complete_def)

lemma Task_call_status:
  "task_status (Task_call t x) = (if x = T_mark_complete then Zaversheno else task_status t)"
  by (cases x)
    (simp_all add: Task_set_id_def Task_set_title_def
      Task_set_description_def Task_set_project_id_def Task_assign_employee_def
      Task_mark_complete_def)

lemma Task_calls_completed:
  "Task_is_completed t \<Longrightarrow> Task_is_completed (Task_calls t ops)"
proof (induction ops arbitrary: t)
  case Nil
  then show ?case by (simp add: Task_calls_def)
next
  case (Cons x ops)
  from Cons.prems have "Task_is_completed (Task_call t x)" by (rule Task_call_completed)
  then have "Task_is_completed (Task_calls (Task_call t x) ops)" by (rule Cons.IH)
  then show ?case by (simp add: Task_calls_def)
qed

lemma Task_calls_statuses:
  "task_status t \<in> set STATUSES \<Longrightarrow> task_status (Task_calls t ops) \<in> set STATUSES"
proof (induction ops arbitrary: t)
  case Nil
  then show ?case by (simp add: Task_calls_def)
next
  case (Cons x ops)
  from Cons.prems have "task_status (Task_call t x) \<in> set STATUSES"
    by (simp add: Task_call_status STATUSES_def)
  then have "task_status (Task_calls (Task_call t x) ops) \<in> set STATUSES" by (rule Cons.IH)
  then show ?case by (simp add: Task_calls_def)
qed

text \<open>
  Claim C9, as amended. The status of a Task only moves forward: once
  \<^verbatim>\<open>is_completed()\<close> is true it stays true under every further sequence of public Task
  operations, \<^verbatim>\<open>mark_complete\<close> is the only operation that changes the status, and it
  completes the task. The status is one of the two fixed values in every state reached
  from a task whose status is one of them, which is the case for a task constructed
  with the default status; the constructor itself stores any status it is given.
\<close>

theorem task_status_moves_forward:
  "(Task_is_completed (Task_calls t ops1) \<longrightarrow> Task_is_completed (Task_calls t (ops1 @ ops2)))
   \<and> (x \<noteq> T_mark_complete \<longrightarrow> task_status (Task_call t x) = task_status t)
   \<and> Task_is_completed (Task_call t T_mark_complete)
   \<and> (task_status t \<in> set STATUSES \<longrightarrow> task_status (Task_calls t ops1) \<in> set STATUSES)"
proof -
  have c: "Task_calls t (ops1 @ ops2) = Task_calls (Task_calls t ops1) ops2"
    by (simp add: Task_calls_def)
  have 1: "Task_is_completed (Task_calls t ops1) \<longrightarrow> Task_is_completed (Task_calls t (ops1 @ ops2))"
    unfolding c by (simp add: Task_calls_completed)
  have 2: "x \<noteq> T_mark_complete \<longrightarrow> task_status (Task_call t x) = task_status t"
    by (simp add: Task_call_status)
  have 3: "Task_is_completed (Task_call t T_mark_complete)"
    by (simp add: Task_is_completed_def Task_mark_complete_def)
  have 4: "task_status t \<in> set STATUSES \<longrightarrow> task_status (Task_calls t ops1) \<in> set STATUSES"
    by (simp add: Task_calls_statuses)
  from 1 2 3 4 show ?thesis by blast
qed

theorem task_status_moves_forward_witness:
  "Task_is_completed (Task_calls (Task_init [65] [] V_processe None None None) [T_mark_complete])
   \<and> Task_is_completed (Task_calls (Task_init [65] [] V_processe None None None)
        ([T_mark_complete] @ [T_set_title [66], T_set_title [], T_assign_employee None]))
   \<and> T_set_title [66] \<noteq> T_mark_complete
   \<and> task_status (Task_call (Task_init [65] [] V_processe None None None) (T_set_title [66]))
       = V_processe
   \<and> task_status (Task_init [65] [] V_processe None None None) \<in> set STATUSES
   \<and> task_status (Task_calls (Task_init [65] [] V_processe None None None) [T_mark_complete])
       \<in> set STATUSES"
proof -
  let ?t = "Task_init [65] [] V_processe None None None"
  have h1: "Task_is_completed (Task_calls ?t [T_mark_complete])"
    by (simp add: Task_calls_def Task_mark_complete_def Task_is_completed_def)
  have h2: "T_set_title [66] \<noteq> T_mark_complete" by simp
  have h3: "task_status ?t \<in> set STATUSES" by (simp add: Task_init_def STATUSES_def)
  have s: "task_status ?t = V_processe" by (simp add: Task_init_def)
  from task_status_moves_forward [of ?t "[T_mark_complete]"
      "[T_set_title [66], T_set_title [], T_assign_employee None]" "T_set_title [66]"]
    h1 h2 h3 s
  show ?thesis by simp
qed

text \<open>
  Claim C9 as stated fails at construction: \<^verbatim>\<open>Task("A", "", status="x")\<close> is built
  without an error and its status is neither of the two fixed values.
\<close>

theorem task_constructor_status_counterexample:
  "task_status (Task_calls (Task_init [65] [] [120] None None None) []) \<notin> set STATUSES"
  by (simp add: Task_calls_def Task_init_def STATUSES_def V_processe_def Zaversheno_def)

section \<open>Project progress\<close>

lemma round_f64_1: "round_f64 1 = 1"
  by code_simp

lemma round_f64_100: "round_f64 100 = 100"
  by code_simp

lemma progress_loop_count:
  "progress_loop ts c = c + length (filter Task_is_completed ts)"
  by (induction ts arbitrary: c) (simp_all add: Task_is_completed_def)

lemma sample_tasks_completed:
  "Task_is_completed (sample_task 0)" "\<not> Task_is_completed (sample_task (Suc 0))"
  by (simp_all add: sample_task_def Task_is_completed_def Task_mark_complete_def Task_init_def
      V_processe_def Zaversheno_def)

lemma py_11_of_20: "py_mul (py_truediv 11 20) 100 = 7740561859543041 / 140737488355328"
  by code_simp

text \<open>
  Claim C4, as amended. \<^verbatim>\<open>project_progress\<close> returns 0.0 for an empty task list. For a
  list of \<open>n > 0\<close> tasks of which \<open>k\<close> have the completed status it returns the float of
  the Python expression \<^verbatim>\<open>(k / n) * 100\<close>: the quotient rounded to binary64, then the
  product with 100 rounded to binary64. That float is exactly 100.0 when every task is
  completed and exactly 0.0 when none is.
\<close>

theorem project_progress_is_completed_share:
  "project_progress [] = 0
   \<and> (ts \<noteq> [] \<longrightarrow>
        project_progress ts
        = py_mul (py_truediv (of_nat (length (filter Task_is_completed ts)))
                             (of_nat (length ts))) 100)
   \<and> (ts \<noteq> [] \<and> (\<forall>t\<in>set ts. Task_is_completed t) \<longrightarrow> project_progress ts = 100)
   \<and> ((\<forall>t\<in>set ts. \<not> Task_is_completed t) \<longrightarrow> project_progress ts = 0)"
proof -
  have all: "project_progress ts = 100"
    if "ts \<noteq> []" "\<forall>t\<in>set ts. Task_is_completed t"
  proof -
    from that(2) have "filter Task_is_completed ts = ts" by simp
    with that(1) show ?thesis
      by (simp add: project_progress_def progress_loop_count py_truediv_def py_mul_def
          round_f64_1 round_f64_100)
  qed
  have none: "project_progress ts = 0" if "\<forall>t\<in>set ts. \<not> Task_is_completed t"
  proof -
    from that have "filter Task_is_completed ts = []" by (simp add: filter_empty_conv)
    then show ?thesis
      by (simp add: project_progress_def progress_loop_count py_truediv_def py_mul_def
          round_f64_0)
  qed
  have 1: "project_progress [] = 0" by (simp add: project_progress_def)
  have 2: "ts \<noteq> [] \<longrightarrow>
        project_progress ts
        = py_mul (py_truediv (of_nat (length (filter Task_is_completed ts)))
                             (of_nat (length ts))) 100"
    by (simp add: project_progress_def progress_loop_count)
  from 1 2 all none show ?thesis by blast
qed

text \<open>
  The witness takes 11 completed tasks of 20, where both roundings show, and lists of
  three tasks all completed and all in progress.
\<close>

theorem project_progress_is_completed_share_witness:
  "replicate 11 (sample_task 0) @ replicate 9 (sample_task 1) \<noteq> []
   \<and> project_progress (replicate 11 (sample_task 0) @ replicate 9 (sample_task 1))
       = 7740561859543041 / 140737488355328
   \<and> list_all Task_is_completed (replicate 3 (sample_task 0))
   \<and> project_progress (replicate 3 (sample_task 0)) = 100
   \<and> list_all (\<lambda>t. \<not> Task_is_completed t) (replicate 3 (sample_task 1))
   \<and> project_progress (replicate 3 (sample_task 1)) = 0"
proof -
  let ?ts = "replicate 11 (sample_task 0) @ replicate 9 (sample_task 1)"
  have h1: "?ts \<noteq> []" by simp
  have k: "length (filter Task_is_completed ?ts) = 11" "length ?ts = 20"
    by (simp_all add: sample_tasks_completed)
  from project_progress_is_completed_share [of ?ts] h1
  have "project_progress ?ts
        = py_mul (py_truediv (of_nat (length (filter Task_is_completed ?ts)))
                             (of_nat (length ?ts))) 100" by blast
  then have 1: "project_progress ?ts = 7740561859543041 / 140737488355328"
    unfolding k by (simp add: py_11_of_20)
  have h2: "replicate 3 (sample_task 0) \<noteq> []
            \<and> (\<forall>t\<in>set (replicate 3 (sample_task 0)). Task_is_completed t)"
    by (simp add: sample_tasks_completed)
  from project_progress_is_completed_share [of "replicate 3 (sample_task 0)"] h2
  have 2: "project_progress (replicate 3 (sample_task 0)) = 100" by blast
  have h3: "\<forall>t\<in>set (replicate 3 (sample_task 1)). \<not> Task_is_completed t"
    by (simp add: sample_tasks_completed)
  from project_progress_is_completed_share [of "replicate 3 (sample_task 1)"] h3
  have 3: "project_progress (replicate 3 (sample_task 1)) = 0" by blast
  have 4: "list_all Task_is_completed (replicate 3 (sample_task 0))"
    using h2 by (simp add: list_all_iff)
  have 5: "list_all (\<lambda>t. \<not> Task_is_completed t) (replicate 3 (sample_task 1))"
    using h3 by (simp add: list_all_iff)
  from h1 1 4 2 5 3 show ?thesis by (intro conjI)
qed

text \<open>
  Claim C4 as stated fails for 11 completed tasks of 20: the result is
  \<open>7740561859543041 / 140737488355328\<close>, which Python prints as 55.00000000000001, and
  not \<open>(11 / 20) \<times> 100 = 55\<close>.
\<close>

theorem project_progress_rounding_counterexample:
  "length (replicate 11 (sample_task 0) @ replicate 9 (sample_task 1)) = 20
   \<and> length (filter Task_is_completed
                (replicate 11 (sample_task 0) @ replicate 9 (sample_task 1))) = 11
   \<and> project_progress (replicate 11 (sample_task 0) @ replicate 9 (sample_task 1))
       \<noteq> (11 / 20) * 100"
proof -
  let ?ts = "replicate 11 (sample_task 0) @ replicate 9 (sample_task 1)"
  have "project_progress ?ts = py_mul (py_truediv 11 20) 100"
    by (simp add: project_progress_def progress_loop_count sample_tasks_completed)
  then have "project_progress ?ts \<noteq> (11 / 20) * 100" by (simp add: py_11_of_20)
  then show ?thesis by (simp add: sample_tasks_completed)
qed

lemma count_loop_count:
  "count_loop ts c = c + length (filter Task_is_completed ts)"
  by (induction ts arbitrary: c) simp_all

lemma py_half_percent: "py_mul (py_truediv 1 2) 100 = 50"
  by code_simp

section \<open>Task statistics\<close>

lemma tasks_loop_counts:
  "total_tasks (tasks_loop c ts) = total_tasks c + length ts
   \<and> completed_tasks (tasks_loop c ts) = completed_tasks c + length (filter Task_is_completed ts)
   \<and> in_progress_tasks (tasks_loop c ts)
       = in_progress_tasks c + length (filter (\<lambda>t. \<not> Task_is_completed t) ts)
   \<and> assigned_tasks (tasks_loop c ts)
       = assigned_tasks c + length (filter (\<lambda>t. task_assigned_employee t \<noteq> None) ts)
   \<and> unassigned_tasks (tasks_loop c ts)
       = unassigned_tasks c + length (filter (\<lambda>t. task_assigned_employee t = None) ts)"
proof (induction ts arbitrary: c)
  case Nil
  show ?case by simp
next
  case (Cons t ts)
  show ?case
    using Cons.IH [of "count_task c t"]
    by (simp add: count_task_def Let_def)
qed

lemma projects_loop_counts:
  "total_tasks (projects_loop c ps) = total_tasks c + length (concat (map proj_tasks ps))
   \<and> completed_tasks (projects_loop c ps)
       = completed_tasks c + length (filter Task_is_completed (concat (map proj_tasks ps)))
   \<and> in_progress_tasks (projects_loop c ps)
       = in_progress_tasks c
         + length (filter (\<lambda>t. \<not> Task_is_completed t) (concat (map proj_tasks ps)))
   \<and> assigned_tasks (projects_loop c ps)
       = assigned_tasks c
         + length (filter (\<lambda>t. task_assigned_employee t \<noteq> None) (concat (map proj_tasks ps)))
   \<and> unassigned_tasks (projects_loop c ps)
       = unassigned_tasks c
         + length (filter (\<lambda>t. task_assigned_employee t = None) (concat (map proj_tasks ps)))"
proof (induction ps arbitrary: c)
  case Nil
  show ?case by simp
next
  case (Cons p ps)
  show ?case
    using Cons.IH [of "tasks_loop c (proj_tasks p)"] tasks_loop_counts [of c "proj_tasks p"]
    by simp
qed

lemma length_filter_split:
  "length (filter P xs) + length (filter (\<lambda>x. \<not> P x) xs) = length xs"
  by (induction xs) simp_all

text \<open>
  Claim C7. For every list of projects the result of \<^verbatim>\<open>get_task_statistics\<close> has
  total = completed + in_progress and total = assigned + unassigned; the total is the
  number of tasks of all the projects, each counted once; the rates are
  \<^verbatim>\<open>completed / total * 100\<close> and \<^verbatim>\<open>assigned / total * 100\<close> in Python's floats when the
  total is positive, and both are 0 when the total is 0.
\<close>

theorem task_statistics_partition:
  "total (get_task_statistics ps)
     = completed (get_task_statistics ps) + in_progress (get_task_statistics ps)
   \<and> total (get_task_statistics ps)
     = assigned (get_task_statistics ps) + unassigned (get_task_statistics ps)
   \<and> total (get_task_statistics ps) = length (concat (map proj_tasks ps))
   \<and> completed (get_task_statistics ps)
     = length (filter Task_is_completed (concat (map proj_tasks ps)))
   \<and> assigned (get_task_statistics ps)
     = length (filter (\<lambda>t. task_assigned_employee t \<noteq> None) (concat (map proj_tasks ps)))
   \<and> (0 < total (get_task_statistics ps) \<longrightarrow>
        completion_rate (get_task_statistics ps)
          = py_mul (py_truediv (of_nat (completed (get_task_statistics ps)))
                               (of_nat (total (get_task_statistics ps)))) 100
        \<and> assignment_rate (get_task_statistics ps)
          = py_mul (py_truediv (of_nat (assigned (get_task_statistics ps)))
                               (of_nat (total (get_task_statistics ps)))) 100)
   \<and> (total (get_task_statistics ps) = 0 \<longrightarrow>
        completion_rate (get_task_statistics ps) = 0
        \<and> assignment_rate (get_task_statistics ps) = 0)"
proof -
  let ?ts = "concat (map proj_tasks ps)"
  have p1: "length (filter Task_is_completed ?ts)
            + length (filter (\<lambda>t. \<not> Task_is_completed t) ?ts) = length ?ts"
    by (rule length_filter_split)
  have p2: "length (filter (\<lambda>t. task_assigned_employee t \<noteq> None) ?ts)
            + length (filter (\<lambda>t. \<not> task_assigned_employee t \<noteq> None) ?ts) = length ?ts"
    by (rule length_filter_split)
  from p1 p2 show ?thesis
    by (simp add: get_task_statistics_def Let_def projects_loop_counts)
qed

theorem task_statistics_partition_witness:
  "0 < total (get_task_statistics
        [\<lparr>proj_id = Some 1, proj_title = [80],
          proj_tasks =
            [Task_mark_complete (Task_init [65] [] V_processe
               (Some (Employee_init [69] [] (PyInt 1) (PyInt 0) (Some 7))) None (Some 1)),
             Task_init [66] [] V_processe None None (Some 1)]\<rparr>])
   \<and> completion_rate (get_task_statistics
        [\<lparr>proj_id = Some 1, proj_title = [80],
          proj_tasks =
            [Task_mark_complete (Task_init [65] [] V_processe
               (Some (Employee_init [69] [] (PyInt 1) (PyInt 0) (Some 7))) None (Some 1)),
             Task_init [66] [] V_processe None None (Some 1)]\<rparr>]) = 50
   \<and> assignment_rate (get_task_statistics
        [\<lparr>proj_id = Some 1, proj_title = [80],
          proj_tasks =
            [Task_mark_complete (Task_init [65] [] V_processe
               (Some (Employee_init [69] [] (PyInt 1) (PyInt 0) (Some 7))) None (Some 1)),
             Task_init [66] [] V_processe None None (Some 1)]\<rparr>]) = 50
   \<and> total (get_task_statistics []) = 0
   \<and> completion_rate (get_task_statistics []) = 0
   \<and> assignment_rate (get_task_statistics []) = 0"
proof -
  let ?a = "Task_mark_complete (Task_init [65] [] V_processe
               (Some (Employee_init [69] [] (PyInt 1) (PyInt 0) (Some 7))) None (Some 1))"
  let ?b = "Task_init [66] [] V_processe None None (Some 1)"
  let ?ps = "[\<lparr>proj_id = Some 1, proj_title = [80], proj_tasks = [?a, ?b]\<rparr>]"
  have ca: "Task_is_completed ?a"
    by (simp add: Task_is_completed_def Task_mark_complete_def)
  have cb: "\<not> Task_is_completed ?b"
    by (simp add: Task_is_completed_def Task_init_def V_processe_def Zaversheno_def)
  have ea: "task_assigned_employee ?a \<noteq> None"
    by (simp add: Task_mark_complete_def Task_init_def)
  have eb: "task_assigned_employee ?b = None"
    by (simp add: Task_init_def)
  note th = task_statistics_partition [of ?ps]
  from th have t: "total (get_task_statistics ?ps) = 2" by simp
  from th ca cb have c: "completed (get_task_statistics ?ps) = 1" by simp
  from th ea eb have a: "assigned (get_task_statistics ?ps) = 1" by simp
  from t have h1: "0 < total (get_task_statistics ?ps)" by simp
  from th h1 have "completion_rate (get_task_statistics ?ps)
          = py_mul (py_truediv (of_nat (completed (get_task_statistics ?ps)))
                               (of_nat (total (get_task_statistics ?ps)))) 100"
    by blast
  then have r1: "completion_rate (get_task_statistics ?ps) = 50"
    by (simp add: t c py_half_percent)
  from th h1 have "assignment_rate (get_task_statistics ?ps)
          = py_mul (py_truediv (of_nat (assigned (get_task_statistics ?ps)))
                               (of_nat (total (get_task_statistics ?ps)))) 100"
    by blast
  then have r2: "assignment_rate (get_task_statistics ?ps) = 50"
    by (simp add: t a py_half_percent)
  note th0 = task_statistics_partition [of "[]"]
  from th0 have h2: "total (get_task_statistics []) = 0" by simp
  from th0 h2 have r3: "completion_rate (get_task_statistics []) = 0"
    and r4: "assignment_rate (get_task_statistics []) = 0" by blast+
  from h1 r1 r2 h2 r3 r4 show ?thesis by blast
qed

section \<open>The store: adding\<close>


















section \<open>The store: updating\<close>








section \<open>The store: deleting\<close>

text \<open>
  Claim C3. \<^verbatim>\<open>delete_employee\<close> removes the rows of the employee table with that
  identifier and nothing else; every task row stays, and those that referred to the
  employee refer to none afterwards. \<^verbatim>\<open>delete_project\<close> removes the task rows whose
  project reference is the identifier and the project row, and no employee. In both
  methods the statement on the tasks comes first: in the state between the two
  statements the tasks are already as in the end, and the employee (the project) table
  is still untouched.
\<close>

theorem delete_cascades:
  "employees (delete_employee db i) = filter (\<lambda>r. er_id r \<noteq> i) (employees db)
   \<and> projects (delete_employee db i) = projects db
   \<and> tasks (delete_employee db i)
       = map (\<lambda>r. if tr_employee_id r = Some i then r\<lparr>tr_employee_id := None\<rparr> else r) (tasks db)
   \<and> map tr_id (tasks (delete_employee db i)) = map tr_id (tasks db)
   \<and> (\<forall>r\<in>set (tasks (delete_employee db i)). tr_employee_id r \<noteq> Some i)
   \<and> (\<exists>s. states db (delete_employee_statements i) = [s, delete_employee db i]
          \<and> employees s = employees db
          \<and> tasks s = tasks (delete_employee db i))
   \<and> tasks (delete_project db j) = filter (\<lambda>r. tr_project_id r \<noteq> Some j) (tasks db)
   \<and> projects (delete_project db j) = filter (\<lambda>r. pr_id r \<noteq> j) (projects db)
   \<and> employees (delete_project db j) = employees db
   \<and> (\<exists>s. states db (delete_project_statements j) = [s, delete_project db j]
          \<and> projects s = projects db
          \<and> tasks s = tasks (delete_project db j))"
proof -
  have 1: "employees (delete_employee db i) = filter (\<lambda>r. er_id r \<noteq> i) (employees db)"
    by (simp add: delete_employee_def delete_employee_statements_def)
  have 2: "projects (delete_employee db i) = projects db"
    by (simp add: delete_employee_def delete_employee_statements_def)
  have 3: "tasks (delete_employee db i)
       = map (\<lambda>r. if tr_employee_id r = Some i then r\<lparr>tr_employee_id := None\<rparr> else r) (tasks db)"
    by (simp add: delete_employee_def delete_employee_statements_def)
  have 4: "map tr_id (tasks (delete_employee db i)) = map tr_id (tasks db)"
    unfolding 3 by (induction "tasks db") simp_all
  have 5: "\<forall>r\<in>set (tasks (delete_employee db i)). tr_employee_id r \<noteq> Some i"
    unfolding 3 by auto
  have 6: "\<exists>s. states db (delete_employee_statements i) = [s, delete_employee db i]
          \<and> employees s = employees db
          \<and> tasks s = tasks (delete_employee db i)"
    by (simp add: delete_employee_def delete_employee_statements_def)
  have 7: "tasks (delete_project db j) = filter (\<lambda>r. tr_project_id r \<noteq> Some j) (tasks db)"
    by (simp add: delete_project_def delete_project_statements_def)
  have 8: "projects (delete_project db j) = filter (\<lambda>r. pr_id r \<noteq> j) (projects db)"
    by (simp add: delete_project_def delete_project_statements_def)
  have 9: "employees (delete_project db j) = employees db"
    by (simp add: delete_project_def delete_project_statements_def)
  have 10: "\<exists>s. states db (delete_project_statements j) = [s, delete_project db j]
          \<and> projects s = projects db
          \<and> tasks s = tasks (delete_project db j)"
    by (simp add: delete_project_def delete_project_statements_def)
  from 1 2 3 4 5 6 7 8 9 10 show ?thesis by blast
qed

theorem delete_cascades_witness:
  "employees (delete_employee sample_database 1)
     = [\<lparr>er_id = 2, er_name = [66], er_position = [], er_salary = Some (Finite (f64_of 50000)),
        er_hours_worked = Some (Finite (f64_of 8))\<rparr>]
   \<and> map tr_id (tasks (delete_employee sample_database 1)) = [1, 2, 3]
   \<and> map tr_employee_id (tasks (delete_employee sample_database 1)) = [None, Some 2, None]
   \<and> map tr_id (tasks (delete_project sample_database 1)) = [3]
   \<and> map pr_id (projects (delete_project sample_database 1)) = [2]"
proof -
  note th = delete_cascades [of sample_database 1 1]
  from th have "employees (delete_employee sample_database 1)
      = filter (\<lambda>r. er_id r \<noteq> 1) (employees sample_database)" by blast
  then have 1: "employees (delete_employee sample_database 1)
     = [\<lparr>er_id = 2, er_name = [66], er_position = [], er_salary = Some (Finite (f64_of 50000)),
        er_hours_worked = Some (Finite (f64_of 8))\<rparr>]"
    by (simp add: sample_database_def)
  from th have "map tr_id (tasks (delete_employee sample_database 1))
      = map tr_id (tasks sample_database)" by blast
  then have 2: "map tr_id (tasks (delete_employee sample_database 1)) = [1, 2, 3]"
    by (simp add: sample_database_def)
  from th have "tasks (delete_employee sample_database 1)
       = map (\<lambda>r. if tr_employee_id r = Some 1 then r\<lparr>tr_employee_id := None\<rparr> else r)
           (tasks sample_database)" by blast
  then have 3: "map tr_employee_id (tasks (delete_employee sample_database 1))
      = [None, Some 2, None]"
    by (simp add: sample_database_def)
  from th have "tasks (delete_project sample_database 1)
      = filter (\<lambda>r. tr_project_id r \<noteq> Some 1) (tasks sample_database)" by blast
  then have 4: "map tr_id (tasks (delete_project sample_database 1)) = [3]"
    by (simp add: sample_database_def)
  from th have "projects (delete_project sample_database 1)
      = filter (\<lambda>r. pr_id r \<noteq> 1) (projects sample_database)" by blast
  then have 5: "map pr_id (projects (delete_project sample_database 1)) = [2]"
    by (simp add: sample_database_def)
  from 1 2 3 4 5 show ?thesis by blast
qed

section \<open>Project objects\<close>

lemma tasks_of_other_list:
  assumes "l \<noteq> po_tasks p" "h_tasks h2 = h_tasks h1"
    and "h_lists h2 = (h_lists h1)[l := xs]"
  shows "tasks_of h2 p = tasks_of h1 p"
  using assms by (simp add: tasks_of_def)

lemma get_tasks_result:
  assumes "po_tasks p < length (h_lists h)" "Project_get_tasks h p = (h', l)"
  shows "l = length (h_lists h)" "h_lists h' = h_lists h @ [h_lists h ! po_tasks p]"
    "h_tasks h' = h_tasks h" "tasks_of h' p = tasks_of h p"
  using assms by (auto simp add: Project_get_tasks_def tasks_of_def nth_append)

text \<open>
  Claim C10, as amended. \<^verbatim>\<open>get_tasks()\<close> returns a newly allocated list with the
  elements of the project's list and changes no existing list. Appending to the returned
  list or removing from it leaves the project's tasks, \<^verbatim>\<open>project_progress()\<close> and
  \<^verbatim>\<open>get_completed_tasks_count()\<close> as they were. Of the methods of Project, \<^verbatim>\<open>set_id\<close>,
  \<^verbatim>\<open>set_title\<close> and \<^verbatim>\<open>get_tasks\<close> do not change the task collection. \<^verbatim>\<open>set_tasks\<close>
  does not copy: the project then holds the caller's list itself, and an append to that
  list by the caller is an append to the project's collection.
\<close>

theorem get_tasks_returns_fresh_copy:
  assumes "po_tasks p < length (h_lists h)" and "Project_get_tasks h p = (h', l)"
  shows "l \<noteq> po_tasks p \<and> \<not> l < length (h_lists h)
     \<and> h_lists h' ! l = h_lists h ! po_tasks p
     \<and> h_tasks h' = h_tasks h
     \<and> (\<forall>a < length (h_lists h). h_lists h' ! a = h_lists h ! a)
     \<and> tasks_of h' p = tasks_of h p
     \<and> tasks_of (list_append h' l x) p = tasks_of h p
     \<and> Project_project_progress (list_append h' l x) p = Project_project_progress h p
     \<and> Project_get_completed_tasks_count (list_append h' l x) p
         = Project_get_completed_tasks_count h p
     \<and> tasks_of (snd (list_remove h' l x)) p = tasks_of h p
     \<and> Project_project_progress (snd (list_remove h' l x)) p = Project_project_progress h p
     \<and> Project_get_completed_tasks_count (snd (list_remove h' l x)) p
         = Project_get_completed_tasks_count h p
     \<and> tasks_of h (Project_set_id p v) = tasks_of h p
     \<and> tasks_of h (snd (Project_set_title p s)) = tasks_of h p
     \<and> po_tasks (Project_set_tasks p a) = a
     \<and> (a < length (h_lists h) \<longrightarrow>
          tasks_of (list_append h a x) (Project_set_tasks p a)
          = tasks_of h (Project_set_tasks p a) @ [h_tasks h x])"
proof -
  note r = get_tasks_result [OF assms]
  from r(1) assms(1) have ne: "l \<noteq> po_tasks p" by simp
  from r(1) have fresh: "\<not> l < length (h_lists h)" by simp
  from r(1,2) have copy: "h_lists h' ! l = h_lists h ! po_tasks p" by simp
  from r(2) have same: "\<forall>a < length (h_lists h). h_lists h' ! a = h_lists h ! a"
    by (simp add: nth_append)
  have app: "tasks_of (list_append h' l x) p = tasks_of h' p"
    by (rule tasks_of_other_list [OF ne]) (simp_all add: list_append_def)
  have rem: "tasks_of (snd (list_remove h' l x)) p = tasks_of h' p"
  proof (cases "x \<in> set (h_lists h' ! l)")
    case True
    show ?thesis
      by (rule tasks_of_other_list [OF ne]) (simp_all add: list_remove_def True)
  next
    case False
    then show ?thesis by (simp add: list_remove_def)
  qed
  from app r(4) have app': "tasks_of (list_append h' l x) p = tasks_of h p" by simp
  from rem r(4) have rem': "tasks_of (snd (list_remove h' l x)) p = tasks_of h p" by simp
  have sid: "tasks_of h (Project_set_id p v) = tasks_of h p"
    by (simp add: tasks_of_def Project_set_id_def)
  have stt: "tasks_of h (snd (Project_set_title p s)) = tasks_of h p"
    by (simp add: tasks_of_def Project_set_title_def)
  have sts: "po_tasks (Project_set_tasks p a) = a"
    by (simp add: Project_set_tasks_def)
  have al: "a < length (h_lists h) \<longrightarrow>
          tasks_of (list_append h a x) (Project_set_tasks p a)
          = tasks_of h (Project_set_tasks p a) @ [h_tasks h x]"
    by (simp add: tasks_of_def list_append_def Project_set_tasks_def)
  from ne fresh copy r(3) same r(4) app' rem' sid stt sts al show ?thesis
    by (simp add: Project_project_progress_def Project_get_completed_tasks_count_def)
qed

theorem get_tasks_returns_fresh_copy_witness:
  "po_tasks sample_project_obj < length (h_lists sample_heap)
   \<and> Project_get_tasks sample_heap sample_project_obj
       = (\<lparr>h_lists = [[0, 1], [0, 1]], h_tasks = sample_task\<rparr>, 1)
   \<and> tasks_of (list_append \<lparr>h_lists = [[0, 1], [0, 1]], h_tasks = sample_task\<rparr> 1 5)
        sample_project_obj = [sample_task 0, sample_task 1]
   \<and> Project_project_progress
        (list_append \<lparr>h_lists = [[0, 1], [0, 1]], h_tasks = sample_task\<rparr> 1 5)
        sample_project_obj = 50
   \<and> Project_get_completed_tasks_count
        (snd (list_remove \<lparr>h_lists = [[0, 1], [0, 1]], h_tasks = sample_task\<rparr> 1 0))
        sample_project_obj = 1
   \<and> tasks_of (list_append sample_heap 0 5) (Project_set_tasks sample_project_obj 0)
       = [sample_task 0, sample_task 1, sample_task 5]"
proof -
  let ?h1 = "\<lparr>h_lists = [[0, 1], [0, 1]], h_tasks = sample_task\<rparr>"
  have h1: "po_tasks sample_project_obj < length (h_lists sample_heap)"
    by (simp add: sample_project_obj_def sample_heap_def)
  have h2: "Project_get_tasks sample_heap sample_project_obj = (?h1, 1)"
    by (simp add: Project_get_tasks_def sample_project_obj_def sample_heap_def)
  have h3: "0 < length (h_lists sample_heap)" by (simp add: sample_heap_def)
  have t0: "tasks_of sample_heap sample_project_obj = [sample_task 0, sample_task 1]"
    by (simp add: tasks_of_def sample_project_obj_def sample_heap_def)
  have pr: "Project_project_progress sample_heap sample_project_obj = 50"
    by (simp add: Project_project_progress_def t0 project_progress_def sample_tasks_completed
        Task_is_completed_def [symmetric] py_half_percent)
  have cn: "Project_get_completed_tasks_count sample_heap sample_project_obj = 1"
    by (simp add: Project_get_completed_tasks_count_def t0 get_completed_tasks_count_def
        sample_tasks_completed)
  note th = get_tasks_returns_fresh_copy [OF h1 h2]
  from th [of 5]
  have "tasks_of (list_append ?h1 1 5) sample_project_obj = tasks_of sample_heap sample_project_obj"
    by blast
  with t0 have 1: "tasks_of (list_append ?h1 1 5) sample_project_obj
      = [sample_task 0, sample_task 1]" by (simp only:)
  from th [of 5]
  have "Project_project_progress (list_append ?h1 1 5) sample_project_obj
      = Project_project_progress sample_heap sample_project_obj"
    by blast
  with pr have 2: "Project_project_progress (list_append ?h1 1 5) sample_project_obj = 50"
    by (simp only:)
  from th [of 0]
  have "Project_get_completed_tasks_count (snd (list_remove ?h1 1 0)) sample_project_obj
      = Project_get_completed_tasks_count sample_heap sample_project_obj"
    by blast
  with cn
  have 3: "Project_get_completed_tasks_count (snd (list_remove ?h1 1 0)) sample_project_obj = 1"
    by (simp only:)
  from th [of 5 _ _ 0] h3
  have "tasks_of (list_append sample_heap 0 5) (Project_set_tasks sample_project_obj 0)
          = tasks_of sample_heap (Project_set_tasks sample_project_obj 0) @ [h_tasks sample_heap 5]"
    by blast
  then have 4: "tasks_of (list_append sample_heap 0 5) (Project_set_tasks sample_project_obj 0)
       = [sample_task 0, sample_task 1, sample_task 5]"
    by (simp add: tasks_of_def Project_set_tasks_def sample_project_obj_def sample_heap_def)
  from h1 h2 1 2 3 4 show ?thesis by blast
qed

text \<open>
  Claim C10 as stated fails: after \<^verbatim>\<open>l = p.get_tasks(); p.set_tasks(l)\<close> the call
  \<^verbatim>\<open>l.append(t)\<close> changes the task collection of the project, although the list was
  returned by \<^verbatim>\<open>get_tasks\<close> and no method of the project is called.
\<close>

theorem returned_list_set_back_counterexample:
  "tasks_of
     (list_append (fst (Project_get_tasks sample_heap sample_project_obj))
        (snd (Project_get_tasks sample_heap sample_project_obj)) 5)
     (Project_set_tasks sample_project_obj
        (snd (Project_get_tasks sample_heap sample_project_obj)))
   \<noteq> tasks_of (fst (Project_get_tasks sample_heap sample_project_obj))
       (Project_set_tasks sample_project_obj
          (snd (Project_get_tasks sample_heap sample_project_obj)))"
  by (simp add: tasks_of_def list_append_def Project_get_tasks_def Project_set_tasks_def
      sample_heap_def sample_project_obj_def)

end
